theory Spec2Isabelle
  imports Complex_Main
begin

section \<open>Scalars: the values of type double\<close>

text \<open>
  Both headers compute with C++ \<open>double\<close>. A value is modelled as a real number or one of
  the three special values of IEEE 754. An operation on finite values gives the exact
  real result (rounding to 53 bits is not modelled) unless the magnitude of that result
  reaches the overflow threshold \<open>2^1024 - 2^970\<close>, from which rounding to nearest gives an
  infinity. The special values follow the IEEE rules. \<open>isnan\<close> is the test of \<open>cmath\<close>.
\<close>

datatype double = Fin real | PInf | NInf | NaN

fun isnan :: "double \<Rightarrow> bool" where
  "isnan NaN = True"
| "isnan _ = False"

fun isfinite :: "double \<Rightarrow> bool" where
  "isfinite (Fin _) = True"
| "isfinite _ = False"

fun dneg :: "double \<Rightarrow> double" where
  "dneg (Fin a) = Fin (- a)"
| "dneg PInf = NInf"
| "dneg NInf = PInf"
| "dneg NaN = NaN"

text \<open>
  The largest finite double is \<open>2^1024 - 2^971\<close>; an exact result whose magnitude is at
  least half a unit in the last place above it becomes an infinity of its sign.
\<close>

definition overflow_threshold :: real where
  "overflow_threshold = 2 ^ 1024 - 2 ^ 970"

definition of_exact :: "real \<Rightarrow> double" where
  "of_exact r =
     (if overflow_threshold \<le> \<bar>r\<bar> then (if 0 < r then PInf else NInf) else Fin r)"

fun dadd :: "double \<Rightarrow> double \<Rightarrow> double" where
  "dadd (Fin a) (Fin b) = of_exact (a + b)"
| "dadd NaN _ = NaN"
| "dadd _ NaN = NaN"
| "dadd PInf NInf = NaN"
| "dadd NInf PInf = NaN"
| "dadd PInf _ = PInf"
| "dadd _ PInf = PInf"
| "dadd NInf _ = NInf"
| "dadd _ NInf = NInf"

definition dsub :: "double \<Rightarrow> double \<Rightarrow> double" where
  "dsub x y = dadd x (dneg y)"

text \<open>The product of an infinity with a finite factor: the sign decides, zero gives NaN.\<close>

definition inf_times :: "bool \<Rightarrow> real \<Rightarrow> double" where
  "inf_times positive a =
     (if a = 0 then NaN else if (0 < a) = positive then PInf else NInf)"

fun dmul :: "double \<Rightarrow> double \<Rightarrow> double" where
  "dmul (Fin a) (Fin b) = of_exact (a * b)"
| "dmul NaN _ = NaN"
| "dmul _ NaN = NaN"
| "dmul PInf (Fin b) = inf_times True b"
| "dmul NInf (Fin b) = inf_times False b"
| "dmul (Fin a) PInf = inf_times True a"
| "dmul (Fin a) NInf = inf_times False a"
| "dmul PInf PInf = PInf"
| "dmul NInf NInf = PInf"
| "dmul PInf NInf = NInf"
| "dmul NInf PInf = NInf"

text \<open>Accumulation from zero, left to right, as \<open>res += v\<close> does.\<close>

definition dsum :: "double list \<Rightarrow> double" where
  "dsum vs = foldl dadd (Fin 0) vs"

text \<open>
  A finite double: a real number below the overflow threshold in magnitude. A value of the
  model that is an infinity, NaN or such a number is a value a double can have up to
  rounding; every result of an operation is one.
\<close>

definition regular :: "double \<Rightarrow> bool" where
  "regular v = (case v of Fin r \<Rightarrow> \<bar>r\<bar> < overflow_threshold | _ \<Rightarrow> False)"

definition normal :: "double \<Rightarrow> bool" where
  "normal v = (case v of Fin r \<Rightarrow> \<bar>r\<bar> < overflow_threshold | _ \<Rightarrow> True)"

section \<open>The parts of Eigen the code uses\<close>

text \<open>
  A dense matrix with three columns (\<open>#V by 3\<close>) is the list of its rows, a row a triple;
  an integer matrix with two columns (\<open>#E by 2\<close>) is a list of pairs. Eigen guards every
  index with \<open>eigen_assert\<close>: an index out of range aborts the program, which the model
  returns as \<open>None\<close>. Indices, sizes and row counters are \<open>int\<close> in the code and
  unbounded integers here: the model describes the runs in which none of them leaves the
  range of \<open>int\<close>.
\<close>

type_synonym vec3 = "double \<times> double \<times> double"

text \<open>\<open>M.row(i)\<close>, \<open>M(i, _)\<close> and \<open>v(i)\<close>.\<close>

definition mat_row :: "'a list \<Rightarrow> int \<Rightarrow> 'a option" where
  "mat_row M i = (if 0 \<le> i \<and> i < int (length M) then Some (M ! nat i) else None)"

text \<open>\<open>EdgeVector(k)\<close> for the \<open>k\<close> of a loop \<open>for (k = 0; k < 3; k++)\<close>.\<close>

fun vec3_coeff :: "vec3 \<Rightarrow> int \<Rightarrow> double" where
  "vec3_coeff (a, b, c) k = (if k = 0 then a else if k = 1 then b else c)"

fun vec3_sub :: "vec3 \<Rightarrow> vec3 \<Rightarrow> vec3" where
  "vec3_sub (a, b, c) (a', b', c') = (dsub a a', dsub b b', dsub c c')"

text \<open>An Eigen triplet: row, column, value.\<close>

type_synonym triplet = "int \<times> int \<times> double"

fun trow :: "triplet \<Rightarrow> int" where "trow (r, c, v) = r"
fun tcol :: "triplet \<Rightarrow> int" where "tcol (r, c, v) = c"
fun tval :: "triplet \<Rightarrow> double" where "tval (r, c, v) = v"

text \<open>
  An Eigen sparse matrix of doubles: its dimensions and the triplets it was set from.
  \<open>setFromTriplets\<close> asserts that every triplet lies inside the matrix and sums the
  triplets that share a position, so the coefficient at a position is the sum of their
  values, and a position is stored when at least one triplet names it.
\<close>

record SparseMatrix =
  rows :: int
  cols :: int
  entries :: "triplet list"

definition SparseMatrix_empty :: SparseMatrix where
  "SparseMatrix_empty = \<lparr>rows = 0, cols = 0, entries = []\<rparr>"

definition resize :: "int \<Rightarrow> int \<Rightarrow> SparseMatrix \<Rightarrow> SparseMatrix" where
  "resize r c M = M\<lparr>rows := r, cols := c, entries := []\<rparr>"

definition in_range :: "SparseMatrix \<Rightarrow> triplet \<Rightarrow> bool" where
  "in_range M t = (0 \<le> trow t \<and> trow t < rows M \<and> 0 \<le> tcol t \<and> tcol t < cols M)"

definition setFromTriplets :: "triplet list \<Rightarrow> SparseMatrix \<Rightarrow> SparseMatrix option" where
  "setFromTriplets ts M =
     (if list_all (in_range M) ts then Some (M\<lparr>entries := ts\<rparr>) else None)"

definition at_position :: "int \<Rightarrow> int \<Rightarrow> triplet \<Rightarrow> bool" where
  "at_position r c t = (trow t = r \<and> tcol t = c)"

definition coeff :: "SparseMatrix \<Rightarrow> int \<Rightarrow> int \<Rightarrow> double" where
  "coeff M r c = dsum (map tval (filter (at_position r c) (entries M)))"

definition stored :: "SparseMatrix \<Rightarrow> int \<Rightarrow> int \<Rightarrow> bool" where
  "stored M r c = list_ex (at_position r c) (entries M)"

text \<open>
  The product of a sparse matrix with a dense vector: the sizes must agree, and only the
  stored coefficients take part.
\<close>

definition row_times :: "SparseMatrix \<Rightarrow> double list \<Rightarrow> nat \<Rightarrow> double" where
  "row_times M x r =
     dsum (map (\<lambda>c. dmul (coeff M (int r) (int c)) (x ! c))
            (filter (\<lambda>c. stored M (int r) (int c)) [0..<length x]))"

definition sparse_times_vec :: "SparseMatrix \<Rightarrow> double list \<Rightarrow> double list option" where
  "sparse_times_vec M x =
     (if int (length x) = cols M then Some (map (row_times M x) [0..<nat (rows M)])
      else None)"

text \<open>
  \<open>for (int i = 0; i < n; i++) body\<close> over a loop state; an assertion that fails inside
  the body ends the run.
\<close>

primrec for_loop :: "nat \<Rightarrow> (nat \<Rightarrow> 's \<Rightarrow> 's option) \<Rightarrow> 's \<Rightarrow> 's option" where
  "for_loop 0 body s = Some s"
| "for_loop (Suc n) body s =
     (case for_loop n body s of None \<Rightarrow> None | Some s' \<Rightarrow> body n s')"

section \<open>affine_maps_deform.h\<close>

datatype AffineEnergyTypes = ARAP | ASAP

record 'm AffineData =
  E :: SparseMatrix
  C :: SparseMatrix
  mqwfd :: 'm
  aet :: AffineEnergyTypes
  bendFactor :: double
  FSize :: int
  VSize :: int

text \<open>
  One pass of the loop over \<open>j\<close> in the assembly of \<open>C\<close>: the three passes over \<open>k\<close> push
  their triplets only when the face slot is not \<open>-1\<close>; \<open>CRows++\<close> follows the \<open>if\<close>
  statement and runs in either case.
\<close>

definition constraint_triplets :: "int \<Rightarrow> int \<Rightarrow> int \<Rightarrow> int \<Rightarrow> int \<Rightarrow> vec3 \<Rightarrow> triplet list" where
  "constraint_triplets CRows f Dsize ev0 ev1 EdgeVector =
     concat (map (\<lambda>k. [(CRows, 3 * f + k, vec3_coeff EdgeVector k),
                       (CRows, 3 * Dsize + ev0, Fin (- 1)),
                       (CRows, 3 * Dsize + ev1, Fin 1)]) [0, 1, 2])"

definition constraint_side ::
  "int \<Rightarrow> int \<Rightarrow> int \<Rightarrow> int \<Rightarrow> vec3 \<Rightarrow> int \<times> triplet list \<Rightarrow> int \<times> triplet list" where
  "constraint_side f Dsize ev0 ev1 EdgeVector st =
     (case st of (CRows, CTripletList) \<Rightarrow>
        (CRows + 1,
         if f \<noteq> - 1 then CTripletList @ constraint_triplets CRows f Dsize ev0 ev1 EdgeVector
         else CTripletList))"

text \<open>The body of the loop over the edges \<open>i\<close>.\<close>

definition constraint_edge ::
  "vec3 list \<Rightarrow> int \<Rightarrow> (int \<times> int) list \<Rightarrow> (int \<times> int) list \<Rightarrow> nat \<Rightarrow>
   int \<times> triplet list \<Rightarrow> (int \<times> triplet list) option" where
  "constraint_edge V Dsize EF EV i st =
     (case mat_row EV (int i) of None \<Rightarrow> None
      | Some (ev0, ev1) \<Rightarrow>
     (case mat_row V ev1 of None \<Rightarrow> None
      | Some v1 \<Rightarrow>
     (case mat_row V ev0 of None \<Rightarrow> None
      | Some v0 \<Rightarrow>
     (case mat_row EF (int i) of None \<Rightarrow> None
      | Some (f0, f1) \<Rightarrow>
          Some (constraint_side f1 Dsize ev0 ev1 (vec3_sub v1 v0)
                 (constraint_side f0 Dsize ev0 ev1 (vec3_sub v1 v0) st))))))"

text \<open>The body of the loop of the bending energy: a boundary edge is skipped.\<close>

definition bending_edge ::
  "(int \<times> int) list \<Rightarrow> nat \<Rightarrow> int \<times> triplet list \<Rightarrow> (int \<times> triplet list) option" where
  "bending_edge EF i st =
     (case mat_row EF (int i) of None \<Rightarrow> None
      | Some (f0, f1) \<Rightarrow>
          (case st of (ERows, ETripletList) \<Rightarrow>
             if f0 = - 1 \<or> f1 = - 1 then Some (ERows, ETripletList)
             else Some (ERows + 1,
                        ETripletList @
                        concat (map (\<lambda>k. [(ERows, 3 * f0 + k, Fin (- 1)),
                                          (ERows, 3 * f1 + k, Fin 1)]) [0, 1, 2]))))"

text \<open>
  \<open>igl::min_quad_with_fixed_precompute\<close> is not part of these headers; it is a parameter
  that maps the energy matrix, the handles, the constraint matrix and the flag to the
  solver's data.
\<close>

definition affine_maps_precompute ::
  "(SparseMatrix \<Rightarrow> int list \<Rightarrow> SparseMatrix \<Rightarrow> bool \<Rightarrow> 'm) \<Rightarrow>
   vec3 list \<Rightarrow> int list \<Rightarrow> int list list \<Rightarrow> (int \<times> int) list \<Rightarrow> (int \<times> int) list \<Rightarrow>
   int list \<Rightarrow> 'm AffineData \<Rightarrow> 'm AffineData option" where
  "affine_maps_precompute min_quad_with_fixed_precompute V D F EF EV h adata =
     (let NumVars = 3 * int (length F) + int (length V) in
      case for_loop (length EF) (constraint_edge V (int (length D)) EF EV) (0, []) of
        None \<Rightarrow> None
      | Some (CRows, CTripletList) \<Rightarrow>
     (case for_loop (length EF) (bending_edge EF)
             (3 * int (length F),
              map (\<lambda>i. (int i, int i, Fin 1)) [0..<3 * length F]) of
        None \<Rightarrow> None
      | Some (ERows, ETripletList) \<Rightarrow>
     (case setFromTriplets ETripletList (resize ERows NumVars (E adata)) of
        None \<Rightarrow> None
      | Some E' \<Rightarrow>
     (case setFromTriplets CTripletList (resize CRows NumVars (C adata)) of
        None \<Rightarrow> None
      | Some C' \<Rightarrow>
          Some (adata\<lparr>E := E', C := C',
                      FSize := int (length F), VSize := int (length V),
                      mqwfd := min_quad_with_fixed_precompute E' h C' True\<rparr>)))))"

text \<open>
  \<open>RawResult.block(start, 0, n, 3)\<close>: \<open>n\<close> rows from row \<open>start\<close>, asserted to lie inside the
  matrix.
\<close>

definition block :: "vec3 list \<Rightarrow> int \<Rightarrow> int \<Rightarrow> vec3 list option" where
  "block M start n =
     (if 0 \<le> start \<and> 0 \<le> n \<and> start + n \<le> int (length M)
      then Some (take (nat n) (drop (nat start) M)) else None)"

text \<open>
  \<open>igl::min_quad_with_fixed_solve\<close> is a parameter too: it maps the solver's data, the
  linear term, the handle targets and the right-hand side of the constraints to the raw
  result. The parameters \<open>A\<close> and \<open>q\<close> are declared \<open>Eigen::MatrixXd A\<close> and
  \<open>Eigen::MatrixXd q\<close>: the function owns copies of the caller's matrices, and the value
  of the model is what these two copies hold when the body ends.
\<close>

definition affine_maps_deform ::
  "('m \<Rightarrow> double list \<Rightarrow> vec3 list \<Rightarrow> double list \<Rightarrow> vec3 list) \<Rightarrow>
   'm AffineData \<Rightarrow> vec3 list \<Rightarrow> vec3 list \<Rightarrow> vec3 list \<Rightarrow> vec3 list \<Rightarrow>
   (vec3 list \<times> vec3 list) option" where
  "affine_maps_deform min_quad_with_fixed_solve adata qh q0 A q =
     (let RawResult = min_quad_with_fixed_solve (mqwfd adata)
                        (replicate (nat (cols (E adata))) (Fin 0)) qh
                        (replicate (nat (rows (C adata))) (Fin 0)) in
      case block RawResult 0 (3 * FSize adata) of None \<Rightarrow> None
      | Some A' \<Rightarrow>
     (case block RawResult (3 * FSize adata) (VSize adata) of None \<Rightarrow> None
      | Some q' \<Rightarrow> Some (A', q')))"

text \<open>
  The statement \<open>affine_maps_deform(adata, qh, q0, A, q);\<close> in a caller that owns the
  matrices \<open>A\<close> and \<open>q\<close>: the arguments are copied into the parameters, the body runs on
  the copies, and the copies are destroyed on return. The value is the pair of the
  caller's matrices after the statement.
\<close>

definition call_affine_maps_deform ::
  "('m \<Rightarrow> double list \<Rightarrow> vec3 list \<Rightarrow> double list \<Rightarrow> vec3 list) \<Rightarrow>
   'm AffineData \<Rightarrow> vec3 list \<Rightarrow> vec3 list \<Rightarrow> vec3 list \<times> vec3 list \<Rightarrow>
   (vec3 list \<times> vec3 list) option" where
  "call_affine_maps_deform min_quad_with_fixed_solve adata qh q0 caller =
     (case caller of (A, q) \<Rightarrow>
        (case affine_maps_deform min_quad_with_fixed_solve adata qh q0 A q of
           None \<Rightarrow> None
         | Some copies \<Rightarrow> Some (A, q)))"

section \<open>OffsetMeshTraits.h\<close>

datatype OffsetType = VERTEX_OFFSET | EDGE_OFFSET | FACE_OFFSET

record OffsetMeshTraits =
  JERows :: "int list"
  JECols :: "int list"
  JEVals :: "double list"
  EVec :: "double list"
  xSize :: int
  JCRows :: "int list"
  JCCols :: "int list"
  JCVals :: "double list"
  CVec :: "double list"
  VOrig :: "vec3 list"
  F :: "int list list"
  EV :: "(int \<times> int) list"
  D :: "int list"
  offsetConstMat :: SparseMatrix
  oType :: OffsetType
  d :: double
  fullSolution :: "vec3 list"

text \<open>
  A dense vector that \<open>resize\<close> reallocates holds unspecified values until they are
  written; the model puts NaN there. Every place the code resizes, it overwrites all
  coefficients before any is read.
\<close>

definition uninitialized :: double where
  "uninitialized = NaN"

definition vec_resize :: "nat \<Rightarrow> double list \<Rightarrow> double list" where
  "vec_resize n v = (if length v = n then v else replicate n uninitialized)"

definition conservativeResize :: "nat \<Rightarrow> double list \<Rightarrow> double list" where
  "conservativeResize n v = take n v @ replicate (n - length v) uninitialized"

text \<open>The three triplets of coordinate \<open>j\<close> of edge \<open>i\<close>, and the body of the loop over the edges.\<close>

definition offset_triplets :: "int \<Rightarrow> int \<Rightarrow> int \<Rightarrow> int \<Rightarrow> vec3 \<Rightarrow> triplet list" where
  "offset_triplets i ev0 ev1 Vrows origEdge =
     concat (map (\<lambda>j. [(3 * i + j, 3 * ev0 + j, Fin (- 1)),
                       (3 * i + j, 3 * ev1 + j, Fin 1),
                       (3 * i + j, 3 * Vrows + i, dneg (vec3_coeff origEdge j))]) [0, 1, 2])"

definition offset_edge ::
  "vec3 list \<Rightarrow> (int \<times> int) list \<Rightarrow> nat \<Rightarrow> triplet list \<Rightarrow> triplet list option" where
  "offset_edge VOrig0 EV0 i offsetTriList =
     (case mat_row EV0 (int i) of None \<Rightarrow> None
      | Some (ev0, ev1) \<Rightarrow>
     (case mat_row VOrig0 ev1 of None \<Rightarrow> None
      | Some v1 \<Rightarrow>
     (case mat_row VOrig0 ev0 of None \<Rightarrow> None
      | Some v0 \<Rightarrow>
          Some (offsetTriList @
                offset_triplets (int i) ev0 ev1 (int (length VOrig0)) (vec3_sub v1 v0)))))"

text \<open>
  \<open>init\<close>. The branches for \<open>EDGE_OFFSET\<close> and \<open>FACE_OFFSET\<close> hold a comment only. The
  loops that fill \<open>JCRows\<close>, \<open>JCCols\<close>, \<open>JCVals\<close>, \<open>JERows\<close> and \<open>JECols\<close> write every index
  once, so each is the list of the written values.
\<close>

definition init ::
  "vec3 list \<Rightarrow> int list \<Rightarrow> int list list \<Rightarrow> (int \<times> int) list \<Rightarrow> OffsetType \<Rightarrow> double \<Rightarrow>
   OffsetMeshTraits \<Rightarrow> OffsetMeshTraits option" where
  "init VOrig0 D0 F0 EV0 oType0 d0 s =
     (let s1 = s\<lparr>VOrig := VOrig0, F := F0, D := D0, EV := EV0, oType := oType0, d := d0\<rparr>;
          s2 = s1\<lparr>xSize := 3 * int (length VOrig0) + int (length EV0),
                  CVec := vec_resize (3 * length EV0) (CVec s1)\<rparr>
      in
      case for_loop (length EV0) (offset_edge VOrig0 EV0) [] of None \<Rightarrow> None
      | Some offsetTriList \<Rightarrow>
     (case setFromTriplets offsetTriList
             (resize (3 * int (length EV0)) (xSize s2) (offsetConstMat s2)) of
        None \<Rightarrow> None
      | Some M \<Rightarrow>
          let s3 = s2\<lparr>offsetConstMat := M,
                      JCRows := map trow offsetTriList,
                      JCCols := map tcol offsetTriList,
                      JCVals := map tval offsetTriList\<rparr>
          in
          Some (if oType0 = VERTEX_OFFSET
                then s3\<lparr>EVec := vec_resize (length VOrig0) (EVec s3),
                        JERows := concat (map (\<lambda>i. [int i, int i, int i]) [0..<length VOrig0]),
                        JECols := map int [0..<3 * length VOrig0],
                        JEVals := vec_resize (3 * length VOrig0) (JEVals s3)\<rparr>
                else s3)))"

text \<open>An object as its constructor leaves it: every matrix and vector is empty.\<close>

definition OffsetMeshTraits_new :: "int \<Rightarrow> OffsetType \<Rightarrow> double \<Rightarrow> OffsetMeshTraits" where
  "OffsetMeshTraits_new xSize0 oType0 d0 =
     \<lparr>JERows = [], JECols = [], JEVals = [], EVec = [], xSize = xSize0,
      JCRows = [], JCCols = [], JCVals = [], CVec = [],
      VOrig = [], F = [], EV = [], D = [],
      offsetConstMat = SparseMatrix_empty, oType = oType0, d = d0, fullSolution = []\<rparr>"

text \<open>\<open>x.segment(3*i, 3) << row\<close> and the read of \<open>x.segment(3*i, 3)\<close>.\<close>

fun set_segment3 :: "double list \<Rightarrow> nat \<Rightarrow> vec3 \<Rightarrow> double list" where
  "set_segment3 x i (a, b, c) = x[3 * i := a, 3 * i + 1 := b, 3 * i + 2 := c]"

definition segment3 :: "double list \<Rightarrow> nat \<Rightarrow> vec3 option" where
  "segment3 x i =
     (if 3 * i + 3 \<le> length x then Some (x ! (3 * i), x ! (3 * i + 1), x ! (3 * i + 2))
      else None)"

definition initial_solution :: "OffsetMeshTraits \<Rightarrow> double list \<Rightarrow> double list" where
  "initial_solution s x0 =
     (let n = length (VOrig s); m = length (EV s);
          x1 = conservativeResize (3 * n + m) x0;
          x2 = fold (\<lambda>i x. set_segment3 x i (VOrig s ! i)) [0..<n] x1
      in take (3 * n) x2 @ replicate m (Fin 0))"

text \<open>The loop that both updates start with: \<open>currV.row(i) << x.segment(3*i, 3)\<close>.\<close>

definition current_vertices :: "nat \<Rightarrow> double list \<Rightarrow> vec3 list option" where
  "current_vertices n x =
     for_loop n (\<lambda>i currV. case segment3 x i of None \<Rightarrow> None
                           | Some r \<Rightarrow> Some (currV[i := r]))
       (replicate n (uninitialized, uninitialized, uninitialized))"

fun squaredNorm :: "vec3 \<Rightarrow> double" where
  "squaredNorm (a, b, c) = dadd (dadd (dmul a a) (dmul b b)) (dmul c c)"

text \<open>What \<open>cout << i\<close> prints for an index: its decimal digits.\<close>

definition digit_char :: "nat \<Rightarrow> char" where
  "digit_char k = ''0123456789'' ! k"

fun decimal :: "nat \<Rightarrow> string" where
  "decimal n =
     (if 10 \<le> n then decimal (n div 10) @ [digit_char (n mod 10)] else [digit_char n])"

text \<open>
  The loop that ends both updates: one line on standard output for each coefficient that
  is NaN. It changes nothing else.
\<close>

definition nan_line :: "string \<Rightarrow> nat \<Rightarrow> string" where
  "nan_line name i = ''nan in '' @ name @ ''('' @ decimal i @ '')''"

definition nan_report :: "string \<Rightarrow> double list \<Rightarrow> string list" where
  "nan_report name v =
     concat (map (\<lambda>i. if isnan (v ! i) then [nan_line name i] else []) [0..<length v])"

text \<open>
  \<open>update_energy\<close> and \<open>update_jacobian\<close> return \<open>void\<close>; the value of the model is the
  object after the call and the lines written to standard output.
\<close>

definition update_energy ::
  "double list \<Rightarrow> OffsetMeshTraits \<Rightarrow> (OffsetMeshTraits \<times> string list) option" where
  "update_energy x s =
     (case current_vertices (length (VOrig s)) x of None \<Rightarrow> None
      | Some currV \<Rightarrow>
          let s' = (if oType s = VERTEX_OFFSET
                    then s\<lparr>EVec := map (\<lambda>(v, v'). dsub (squaredNorm (vec3_sub v v'))
                                                    (dmul (d s) (d s)))
                                      (zip (VOrig s) currV)\<rparr>
                    else s)
          in Some (s', nan_report ''EVec'' (EVec s')))"

text \<open>\<open>JEVals(k) = a\<close>: the index is asserted.\<close>

definition set_coeff :: "nat \<Rightarrow> double \<Rightarrow> double list \<Rightarrow> double list option" where
  "set_coeff k a v = (if k < length v then Some (v[k := a]) else None)"

definition update_jacobian ::
  "double list \<Rightarrow> OffsetMeshTraits \<Rightarrow> (OffsetMeshTraits \<times> string list) option" where
  "update_jacobian x s =
     (case current_vertices (length (VOrig s)) x of None \<Rightarrow> None
      | Some currV \<Rightarrow>
     (case (if oType s = VERTEX_OFFSET
            then for_loop (length (VOrig s))
                   (\<lambda>i. for_loop 3
                      (\<lambda>j. set_coeff (3 * i + j)
                             (dmul (Fin 2) (vec3_coeff (VOrig s ! i) (int j)))))
                   (JEVals s)
            else Some (JEVals s)) of
        None \<Rightarrow> None
      | Some vals \<Rightarrow> Some (s\<lparr>JEVals := vals\<rparr>, nan_report ''JEVals'' vals)))"

text \<open>\<open>CVec << offsetConstMat*x\<close>: the comma initializer asserts that the sizes agree.\<close>

definition update_constraints :: "double list \<Rightarrow> OffsetMeshTraits \<Rightarrow> OffsetMeshTraits option" where
  "update_constraints x s =
     (case sparse_times_vec (offsetConstMat s) x of None \<Rightarrow> None
      | Some v \<Rightarrow> if length v = length (CVec s) then Some (s\<lparr>CVec := v\<rparr>) else None)"

section \<open>Meshes\<close>

text \<open>\<open>EF(i, j)\<close> and \<open>EV(i, j)\<close> for \<open>j\<close> in \<open>{0, 1}\<close>.\<close>

definition pair_coeff :: "int \<times> int \<Rightarrow> int \<Rightarrow> int" where
  "pair_coeff p j = (if j = 0 then fst p else snd p)"

text \<open>An edge is interior when both of its face slots are present.\<close>

definition interior :: "int \<times> int \<Rightarrow> bool" where
  "interior e = (fst e \<noteq> - 1 \<and> snd e \<noteq> - 1)"

text \<open>An edge with exactly one incident face.\<close>

definition one_sided :: "int \<times> int \<Rightarrow> bool" where
  "one_sided e = ((fst e = - 1) \<noteq> (snd e = - 1))"

text \<open>
  A mesh whose indices are in range: the face degrees and the face rows agree in number,
  every edge has a row in both edge matrices, every end vertex is a vertex and every face
  slot is \<open>-1\<close> or a face.
\<close>

definition vertex_ok :: "nat \<Rightarrow> int \<Rightarrow> bool" where
  "vertex_ok n v = (0 \<le> v \<and> v < int n)"

definition face_ok :: "nat \<Rightarrow> int \<Rightarrow> bool" where
  "face_ok n f = (f = - 1 \<or> (0 \<le> f \<and> f < int n))"

definition mesh_ok ::
  "vec3 list \<Rightarrow> int list \<Rightarrow> int list list \<Rightarrow> (int \<times> int) list \<Rightarrow> (int \<times> int) list \<Rightarrow> bool" where
  "mesh_ok V D' F' EF EV' =
     (length D' = length F' \<and> length EV' = length EF \<and>
      list_all (\<lambda>e. vertex_ok (length V) (fst e) \<and> vertex_ok (length V) (snd e)) EV' \<and>
      list_all (\<lambda>e. face_ok (length F') (fst e) \<and> face_ok (length F') (snd e)) EF)"

text \<open>A triplet inside a matrix of the given size.\<close>

definition inside :: "int \<Rightarrow> int \<Rightarrow> triplet \<Rightarrow> bool" where
  "inside r c t = (0 \<le> trow t \<and> trow t < r \<and> 0 \<le> tcol t \<and> tcol t < c)"

text \<open>The triplets that the pass for edge \<open>i\<close> of the constraint loop pushes.\<close>

definition pushed :: "vec3 list \<Rightarrow> int \<Rightarrow> (int \<times> int) list \<Rightarrow> (int \<times> int) list \<Rightarrow> nat \<Rightarrow> triplet list" where
  "pushed V Ds EF EV' i =
     (case constraint_edge V Ds EF EV' i (2 * int i, []) of None \<Rightarrow> [] | Some (c, ts) \<Rightarrow> ts)"

text \<open>The row count that one row per existing face side would give.\<close>

definition rows_per_face_side :: "(int \<times> int) list \<Rightarrow> int" where
  "rows_per_face_side EF0 =
     2 * int (length (filter interior EF0)) + int (length (filter one_sided EF0))"

subsection \<open>Vertices, vectors and the unknown vector\<close>

text \<open>Every end vertex of every edge is a vertex.\<close>

definition edges_ok :: "vec3 list \<Rightarrow> (int \<times> int) list \<Rightarrow> bool" where
  "edges_ok V EV' =
     list_all (\<lambda>e. vertex_ok (length V) (fst e) \<and> vertex_ok (length V) (snd e)) EV'"

text \<open>The triplets that the pass for edge \<open>i\<close> of the loop of \<open>init\<close> pushes.\<close>

definition offset_pushed :: "vec3 list \<Rightarrow> (int \<times> int) list \<Rightarrow> nat \<Rightarrow> triplet list" where
  "offset_pushed V EV' i = (case offset_edge V EV' i [] of None \<Rightarrow> [] | Some ts \<Rightarrow> ts)"

text \<open>
  The layout of the position block of the unknown vector: three consecutive coefficients
  for each vertex.
\<close>

fun coords :: "vec3 \<Rightarrow> double list" where
  "coords (a, b, c) = [a, b, c]"

definition flatten3 :: "vec3 list \<Rightarrow> double list" where
  "flatten3 vs = concat (map coords vs)"

definition read3 :: "double list \<Rightarrow> nat \<Rightarrow> vec3" where
  "read3 x i = (x ! (3 * i), x ! (3 * i + 1), x ! (3 * i + 2))"

text \<open>A vertex with three finite coordinates.\<close>

definition finite3 :: "vec3 \<Rightarrow> bool" where
  "finite3 v = (case v of (a, b, c) \<Rightarrow> isfinite a \<and> isfinite b \<and> isfinite c)"

text \<open>The three values that one pass of the Jacobian loop writes for a vertex.\<close>

definition jacobian_row :: "vec3 \<Rightarrow> vec3" where
  "jacobian_row v = (dmul (Fin 2) (vec3_coeff v 0), dmul (Fin 2) (vec3_coeff v 1),
                     dmul (Fin 2) (vec3_coeff v 2))"

text \<open>
  The coordinates of both end vertices of an edge are finite doubles and so are the
  coordinates of the edge vector that the code computes from them.
\<close>

definition regular3 :: "vec3 \<Rightarrow> bool" where
  "regular3 v = (case v of (a, b, c) \<Rightarrow> regular a \<and> regular b \<and> regular c)"

definition edge_vector_finite :: "vec3 list \<Rightarrow> int \<times> int \<Rightarrow> bool" where
  "edge_vector_finite V e =
     (regular3 (V ! nat (fst e)) \<and> regular3 (V ! nat (snd e)) \<and>
      regular3 (vec3_sub (V ! nat (snd e)) (V ! nat (fst e))))"

subsection \<open>Concrete meshes\<close>

text \<open>A single triangle: three boundary edges.\<close>

definition triangle_V :: "vec3 list" where
  "triangle_V = [(Fin 0, Fin 0, Fin 0), (Fin 1, Fin 0, Fin 0), (Fin 0, Fin 1, Fin 0)]"

definition triangle_D :: "int list" where
  "triangle_D = [3]"

definition triangle_F :: "int list list" where
  "triangle_F = [[0, 1, 2]]"

definition triangle_EV :: "(int \<times> int) list" where
  "triangle_EV = [(0, 1), (1, 2), (2, 0)]"

definition triangle_EF :: "(int \<times> int) list" where
  "triangle_EF = [(0, - 1), (0, - 1), (0, - 1)]"

text \<open>A unit square cut along a diagonal: four boundary edges and one interior edge.\<close>

definition square_V :: "vec3 list" where
  "square_V = [(Fin 0, Fin 0, Fin 0), (Fin 1, Fin 0, Fin 0),
               (Fin 1, Fin 1, Fin 0), (Fin 0, Fin 1, Fin 0)]"

definition square_D :: "int list" where
  "square_D = [3, 3]"

definition square_F :: "int list list" where
  "square_F = [[0, 1, 2], [0, 2, 3]]"

definition square_EV :: "(int \<times> int) list" where
  "square_EV = [(0, 1), (1, 2), (0, 2), (2, 3), (0, 3)]"

definition square_EF :: "(int \<times> int) list" where
  "square_EF = [(0, - 1), (0, - 1), (0, 1), (1, - 1), (1, - 1)]"

text \<open>A solver that keeps no data, and problem data before \<open>affine_maps_precompute\<close>.\<close>

definition no_precompute :: "SparseMatrix \<Rightarrow> int list \<Rightarrow> SparseMatrix \<Rightarrow> bool \<Rightarrow> unit" where
  "no_precompute A known Aeq pd = ()"

definition adata0 :: "unit AffineData" where
  "adata0 = \<lparr>E = SparseMatrix_empty, C = SparseMatrix_empty, mqwfd = (), aet = ARAP,
             bendFactor = Fin 1, FSize = 0, VSize = 0\<rparr>"

text \<open>
  A solver whose raw result has four rows, and problem data with one face and one vertex.
\<close>

definition deform_solver :: "unit \<Rightarrow> double list \<Rightarrow> vec3 list \<Rightarrow> double list \<Rightarrow> vec3 list" where
  "deform_solver data B Y Beq =
     [(Fin 1, Fin 0, Fin 0), (Fin 0, Fin 1, Fin 0), (Fin 0, Fin 0, Fin 1), (Fin 5, Fin 6, Fin 7)]"

definition adata1 :: "unit AffineData" where
  "adata1 = \<lparr>E = \<lparr>rows = 3, cols = 4, entries = [(0, 0, Fin 1), (1, 1, Fin 1), (2, 2, Fin 1)]\<rparr>,
             C = \<lparr>rows = 0, cols = 4, entries = []\<rparr>, mqwfd = (), aet = ARAP,
             bendFactor = Fin 1, FSize = 1, VSize = 1\<rparr>"

text \<open>
  The unit cube: 8 vertices, 6 quadrilateral faces, 12 edges.
\<close>

definition cube_V :: "vec3 list" where
  "cube_V = [(Fin 0, Fin 0, Fin 0), (Fin 1, Fin 0, Fin 0), (Fin 1, Fin 1, Fin 0), (Fin 0, Fin 1, Fin 0),
             (Fin 0, Fin 0, Fin 1), (Fin 1, Fin 0, Fin 1), (Fin 1, Fin 1, Fin 1), (Fin 0, Fin 1, Fin 1)]"

definition cube_D :: "int list" where
  "cube_D = [4, 4, 4, 4, 4, 4]"

definition cube_F :: "int list list" where
  "cube_F = [[0, 3, 2, 1], [4, 5, 6, 7], [0, 1, 5, 4], [1, 2, 6, 5], [2, 3, 7, 6], [3, 0, 4, 7]]"

definition cube_EV :: "(int \<times> int) list" where
  "cube_EV = [(0, 1), (1, 2), (2, 3), (3, 0), (4, 5), (5, 6), (6, 7), (7, 4),
              (0, 4), (1, 5), (2, 6), (3, 7)]"

text \<open>A newly constructed traits object, and an iterate with a NaN and an infinity.\<close>

definition traits0 :: OffsetMeshTraits where
  "traits0 = OffsetMeshTraits_new 0 VERTEX_OFFSET (Fin 0)"

definition nan_iterate :: "double list" where
  "nan_iterate = [NaN, Fin 0, Fin 0, PInf, Fin 0, Fin 0, Fin 0, Fin 1, Fin 0, Fin 0, Fin 0, Fin 0]"

text \<open>The product of the constraint matrix of the problem data with a vector.\<close>

definition times_C :: "double list \<Rightarrow> 'm AffineData \<Rightarrow> double list option" where
  "times_C x adata = sparse_times_vec (C adata) x"

text \<open>
  Two vertices whose first coordinates are \<open>-2^1023\<close> and \<open>2^1023\<close>, joined by one edge, and
  \<open>update_constraints\<close> on the initial solution.
\<close>

definition two_to_1023 :: real where
  "two_to_1023 = 2 ^ 1023"

definition overflow_V :: "vec3 list" where
  "overflow_V = [(Fin (- two_to_1023), Fin 0, Fin 0), (Fin two_to_1023, Fin 0, Fin 0)]"

definition constraints_at_initial :: "OffsetMeshTraits \<Rightarrow> OffsetMeshTraits option" where
  "constraints_at_initial s = update_constraints (initial_solution s []) s"

section \<open>Arithmetic of the model\<close>

lemma overflow_threshold_code [code]:
  "overflow_threshold = 179769313486231580793728971405303415079934132710037826936173778980444968292764750946649017977587207096330286416692887910946555547851940402630657488671505820681908902000708383676273854845817711531764475730270069855571366959622842914819860834936475292719074168444365510704342711559699508093042880177904174497792"
  by (simp add: overflow_threshold_def)

lemma two_to_1023_code [code]:
  "two_to_1023 = 89884656743115795386465259539451236680898848947115328636715040578866337902750481566354238661203768010560056939935696678829394884407208311246423715319737062188883946712432742638151109800623047059726541476042502884419075341171231440736956555270413618581675255342293149119973622969239858152417678164812112068608"
  by (simp add: two_to_1023_def)

lemma overflow_threshold_large: "1000000 < overflow_threshold"
  by (simp add: overflow_threshold_code)

lemma of_exact_small [simp]: "\<bar>r\<bar> \<le> 1000000 \<Longrightarrow> of_exact r = Fin r"
  using overflow_threshold_large by (simp add: of_exact_def)

lemma normal_of_exact [simp]: "normal (of_exact r)"
  by (simp add: normal_def of_exact_def)

lemma normal_special [simp]: "normal PInf" "normal NInf" "normal NaN"
  by (simp_all add: normal_def)

lemma normal_dadd [simp]: "normal (dadd u v)"
  by (cases u; cases v) simp_all

lemma normal_dneg [simp]: "normal (dneg v) = normal v"
  by (cases v) (simp_all add: normal_def)

lemma normal_dsub [simp]: "normal (dsub u v)"
  by (simp add: dsub_def)

lemma dadd_zero_left: "normal v \<Longrightarrow> dadd (Fin 0) v = v"
  by (cases v) (simp_all add: normal_def of_exact_def)

lemma normal_vec3_sub [simp]: "normal (vec3_coeff (vec3_sub u v) k)"
  by (cases u; cases v) simp

section \<open>Loops of affine_maps_precompute\<close>

lemma constraint_edge_step:
  assumes "constraint_edge V Ds EF EV' i (c, ts) = Some (c', ts')"
  shows "c' = c + 2"
  using assms
  by (auto simp: constraint_edge_def constraint_side_def split: option.splits prod.splits if_splits)

lemma constraint_loop_rows:
  "for_loop n (constraint_edge V Ds EF EV') (c0, ts0) = Some (c, ts) \<Longrightarrow> c = c0 + 2 * int n"
proof (induction n arbitrary: c ts)
  case 0
  then show ?case by simp
next
  case (Suc n)
  from Suc.prems obtain c1 ts1 where
    p: "for_loop n (constraint_edge V Ds EF EV') (c0, ts0) = Some (c1, ts1)"
    and b: "constraint_edge V Ds EF EV' n (c1, ts1) = Some (c, ts)"
    by (auto split: option.splits)
  from Suc.IH [OF p] constraint_edge_step [OF b] show ?case by simp
qed

lemma bending_edge_step:
  assumes "bending_edge EF i (r, ts) = Some (r', ts')"
  shows "i < length EF \<and> r' = r + (if interior (EF ! i) then 1 else 0)"
  using assms
  by (auto simp: bending_edge_def mat_row_def interior_def split: option.splits prod.splits if_splits)

lemma bending_loop_rows:
  "for_loop n (bending_edge EF) (r0, ts0) = Some (r, ts) \<Longrightarrow>
     n \<le> length EF \<and> r = r0 + int (length (filter interior (take n EF)))"
proof (induction n arbitrary: r ts)
  case 0
  then show ?case by simp
next
  case (Suc n)
  from Suc.prems obtain r1 ts1 where
    p: "for_loop n (bending_edge EF) (r0, ts0) = Some (r1, ts1)"
    and b: "bending_edge EF n (r1, ts1) = Some (r, ts)"
    by (auto split: option.splits)
  from bending_edge_step [OF b] have n: "n < length EF"
    and r: "r = r1 + (if interior (EF ! n) then 1 else 0)" by simp_all
  from Suc.IH [OF p] have "r1 = r0 + int (length (filter interior (take n EF)))" by simp
  with n r show ?case by (simp add: take_Suc_conv_app_nth)
qed

lemma precompute_rows:
  assumes "affine_maps_precompute mq V D' F' EF EV' h adata = Some adata'"
  shows "rows (E adata') = 3 * int (length F') + int (length (filter interior EF))"
    and "rows (C adata') = 2 * int (length EF)"
    and "cols (E adata') = 3 * int (length F') + int (length V)"
    and "cols (C adata') = 3 * int (length F') + int (length V)"
  using assms
  by (auto simp: affine_maps_precompute_def Let_def setFromTriplets_def resize_def
      split: option.splits prod.splits if_splits
      dest!: bending_loop_rows constraint_loop_rows)

lemma inside_mono: "inside r c t \<Longrightarrow> r \<le> r' \<Longrightarrow> inside r' c t"
  by (auto simp: inside_def)

lemma constraint_triplets_inside:
  assumes "0 \<le> c" "f \<noteq> - 1" "face_ok nf f" "vertex_ok nv a" "vertex_ok nv b"
  shows "list_all (inside (c + 1) (3 * int nf + int nv)) (constraint_triplets c f (int nf) a b e)"
  using assms
  by (auto simp: constraint_triplets_def inside_def face_ok_def vertex_ok_def)

lemma constraint_side_inside:
  assumes "0 \<le> c" "face_ok nf f" "vertex_ok nv a" "vertex_ok nv b"
    "list_all (inside c (3 * int nf + int nv)) ts"
    "constraint_side f (int nf) a b e (c, ts) = (c', ts')"
  shows "c' = c + 1 \<and> list_all (inside c' (3 * int nf + int nv)) ts'"
proof -
  have old: "list_all (inside (c + 1) (3 * int nf + int nv)) ts"
    using assms(5) by (auto simp: list_all_iff intro: inside_mono)
  show ?thesis
    using assms(6) old constraint_triplets_inside [OF assms(1) _ assms(2,3,4), of e]
    by (auto simp: constraint_side_def split: if_splits)
qed

lemma constraint_edge_total:
  assumes ok: "mesh_ok V D' F' EF EV'" and i: "i < length EF" and c: "0 \<le> c"
    and ts: "list_all (inside c (3 * int (length F') + int (length V))) ts"
  shows "\<exists>ts'. constraint_edge V (int (length D')) EF EV' i (c, ts) = Some (c + 2, ts') \<and>
           list_all (inside (c + 2) (3 * int (length F') + int (length V))) ts'"
proof -
  from ok i have iv: "i < length EV'" and DF: "length D' = length F'" by (simp_all add: mesh_ok_def)
  obtain a b where ev: "EV' ! i = (a, b)" by (cases "EV' ! i")
  obtain f0 f1 where ef: "EF ! i = (f0, f1)" by (cases "EF ! i")
  from ok iv ev have va: "vertex_ok (length V) a" and vb: "vertex_ok (length V) b"
    by (auto simp: mesh_ok_def list_all_length)
  from ok i ef have f0: "face_ok (length F') f0" and f1: "face_ok (length F') f1"
    by (auto simp: mesh_ok_def list_all_length)
  define e where "e = vec3_sub (V ! nat b) (V ! nat a)"
  obtain c1 ts1 where s0: "constraint_side f0 (int (length F')) a b e (c, ts) = (c1, ts1)"
    by (cases "constraint_side f0 (int (length F')) a b e (c, ts)")
  from constraint_side_inside [OF c f0 va vb ts s0]
  have c1: "c1 = c + 1" and ts1: "list_all (inside c1 (3 * int (length F') + int (length V))) ts1"
    by blast+
  obtain c2 ts2 where s1: "constraint_side f1 (int (length F')) a b e (c1, ts1) = (c2, ts2)"
    by (cases "constraint_side f1 (int (length F')) a b e (c1, ts1)")
  from c c1 have "0 \<le> c1" by simp
  from constraint_side_inside [OF this f1 va vb ts1 s1]
  have c2: "c2 = c1 + 1" and ts2: "list_all (inside c2 (3 * int (length F') + int (length V))) ts2"
    by blast+
  have "constraint_edge V (int (length D')) EF EV' i (c, ts) = Some (c2, ts2)"
    using iv i ev ef va vb s0 s1 DF
    by (simp add: constraint_edge_def mat_row_def vertex_ok_def e_def)
  moreover from c1 c2 have "c2 = c + 2" by simp
  ultimately show ?thesis using ts2 by blast
qed

lemma constraint_loop_total:
  assumes ok: "mesh_ok V D' F' EF EV'"
  shows "n \<le> length EF \<Longrightarrow>
     \<exists>ts. for_loop n (constraint_edge V (int (length D')) EF EV') (0, []) = Some (2 * int n, ts) \<and>
          list_all (inside (2 * int n) (3 * int (length F') + int (length V))) ts"
proof (induction n)
  case 0
  then show ?case by simp
next
  case (Suc n)
  then obtain ts where
    p: "for_loop n (constraint_edge V (int (length D')) EF EV') (0, []) = Some (2 * int n, ts)"
    and w: "list_all (inside (2 * int n) (3 * int (length F') + int (length V))) ts"
    by auto
  from Suc.prems have "n < length EF" by simp
  from constraint_edge_total [OF ok this _ w]
  obtain ts' where
    "constraint_edge V (int (length D')) EF EV' n (2 * int n, ts) = Some (2 * int n + 2, ts')"
    "list_all (inside (2 * int n + 2) (3 * int (length F') + int (length V))) ts'"
    by auto
  with p show ?case by (simp add: algebra_simps)
qed

lemma bending_edge_total:
  assumes ok: "mesh_ok V D' F' EF EV'" and i: "i < length EF" and r: "0 \<le> r"
    and ts: "list_all (inside r (3 * int (length F') + int (length V))) ts"
  shows "\<exists>r' ts'. bending_edge EF i (r, ts) = Some (r', ts') \<and> r \<le> r' \<and>
           list_all (inside r' (3 * int (length F') + int (length V))) ts'"
proof -
  obtain f0 f1 where ef: "EF ! i = (f0, f1)" by (cases "EF ! i")
  from ok i ef have f0: "face_ok (length F') f0" and f1: "face_ok (length F') f1"
    by (auto simp: mesh_ok_def list_all_length)
  have old: "list_all (inside (r + 1) (3 * int (length F') + int (length V))) ts"
    using ts by (auto simp: list_all_iff intro: inside_mono)
  show ?thesis
    using i ef f0 f1 r ts old
    by (auto simp: bending_edge_def mat_row_def face_ok_def inside_def)
qed

lemma bending_loop_total:
  assumes ok: "mesh_ok V D' F' EF EV'"
    and r0: "0 \<le> r0" and ts0: "list_all (inside r0 (3 * int (length F') + int (length V))) ts0"
  shows "n \<le> length EF \<Longrightarrow>
     \<exists>r ts. for_loop n (bending_edge EF) (r0, ts0) = Some (r, ts) \<and> r0 \<le> r \<and>
          list_all (inside r (3 * int (length F') + int (length V))) ts"
proof (induction n)
  case 0
  with r0 ts0 show ?case by simp
next
  case (Suc n)
  then obtain r ts where
    p: "for_loop n (bending_edge EF) (r0, ts0) = Some (r, ts)" and le: "r0 \<le> r"
    and w: "list_all (inside r (3 * int (length F') + int (length V))) ts"
    by auto
  from Suc.prems have n: "n < length EF" by simp
  from le r0 have "0 \<le> r" by simp
  from bending_edge_total [OF ok n this w] obtain r' ts' where
    "bending_edge EF n (r, ts) = Some (r', ts')" "r \<le> r'"
    "list_all (inside r' (3 * int (length F') + int (length V))) ts'"
    by auto
  with p le show ?case by auto
qed

lemma identity_inside:
  "list_all (inside (3 * int nf) (3 * int nf + int nv)) (map (\<lambda>i. (int i, int i, Fin 1)) [0..<3 * nf])"
  by (auto simp: list_all_iff inside_def)

lemma precompute_total:
  assumes ok: "mesh_ok V D' F' EF EV'"
  shows "\<exists>adata'. affine_maps_precompute mq V D' F' EF EV' h adata = Some adata'"
proof -
  from constraint_loop_total [OF ok order_refl] obtain cts where
    c: "for_loop (length EF) (constraint_edge V (int (length D')) EF EV') (0, []) =
          Some (2 * int (length EF), cts)"
    and cw: "list_all (inside (2 * int (length EF)) (3 * int (length F') + int (length V))) cts"
    by auto
  have "0 \<le> 3 * int (length F')" by simp
  from bending_loop_total [OF ok this identity_inside order_refl] obtain r ets where
    e: "for_loop (length EF) (bending_edge EF)
          (3 * int (length F'), map (\<lambda>i. (int i, int i, Fin 1)) [0..<3 * length F']) = Some (r, ets)"
    and ew: "list_all (inside r (3 * int (length F') + int (length V))) ets"
    by auto
  have ce: "list_all (in_range (resize (2 * int (length EF)) (3 * int (length F') + int (length V)) (C adata))) cts"
    using cw by (simp add: list_all_iff in_range_def inside_def resize_def)
  have ee: "list_all (in_range (resize r (3 * int (length F') + int (length V)) (E adata))) ets"
    using ew by (simp add: list_all_iff in_range_def inside_def resize_def)
  show ?thesis
    using c e ce ee by (simp add: affine_maps_precompute_def Let_def setFromTriplets_def)
qed

lemma constraint_side_append:
  "constraint_side f Ds a b e (c, ts) = (c + 1, ts @ snd (constraint_side f Ds a b e (c, [])))"
  by (simp add: constraint_side_def)

lemma constraint_edge_append:
  assumes "constraint_edge V Ds EF EV' i (c, ts) = Some (c', ts')"
  shows "\<exists>new. constraint_edge V Ds EF EV' i (c, []) = Some (c', new) \<and> ts' = ts @ new"
  using assms
  by (auto simp: constraint_edge_def constraint_side_def split: option.splits prod.splits)

lemma constraint_loop_list:
  "for_loop n (constraint_edge V Ds EF EV') (0, []) = Some (c, ts) \<Longrightarrow>
     ts = concat (map (pushed V Ds EF EV') [0..<n])"
proof (induction n arbitrary: c ts)
  case 0
  then show ?case by simp
next
  case (Suc n)
  from Suc.prems obtain c1 ts1 where
    p: "for_loop n (constraint_edge V Ds EF EV') (0, []) = Some (c1, ts1)"
    and b: "constraint_edge V Ds EF EV' n (c1, ts1) = Some (c, ts)"
    by (auto split: option.splits)
  from constraint_loop_rows [OF p] have c1: "c1 = 2 * int n" by simp
  from constraint_edge_append [OF b] c1 obtain new where
    "constraint_edge V Ds EF EV' n (2 * int n, []) = Some (c, new)" "ts = ts1 @ new"
    by auto
  with Suc.IH [OF p] show ?case by (simp add: pushed_def)
qed

lemma for_loop_body_Some:
  "for_loop n body s = Some s' \<Longrightarrow> i < n \<Longrightarrow> \<exists>s1 s2. body i s1 = Some s2"
proof (induction n arbitrary: s')
  case 0
  then show ?case by simp
next
  case (Suc n)
  from Suc.prems(1) obtain s1 where
    p: "for_loop n body s = Some s1" and b: "body n s1 = Some s'"
    by (auto split: option.splits)
  show ?case
  proof (cases "i = n")
    case True
    with b show ?thesis by blast
  next
    case False
    with Suc.prems(2) have "i < n" by simp
    from Suc.IH [OF p this] show ?thesis .
  qed
qed

lemma constraint_edge_Some_D:
  assumes "constraint_edge V Ds EF EV' i s1 = Some s2"
  shows "i < length EV' \<and> i < length EF \<and>
         vertex_ok (length V) (fst (EV' ! i)) \<and> vertex_ok (length V) (snd (EV' ! i))"
  using assms
  by (auto simp: constraint_edge_def mat_row_def vertex_ok_def split: option.splits prod.splits if_splits)

lemma pushed_eq:
  assumes "i < length EV'" "i < length EF" "EV' ! i = (a, b)" "EF ! i = (f0, f1)"
    "vertex_ok (length V) a" "vertex_ok (length V) b"
  shows "pushed V Ds EF EV' i =
     (if f0 \<noteq> - 1 then constraint_triplets (2 * int i) f0 Ds a b (vec3_sub (V ! nat b) (V ! nat a)) else []) @
     (if f1 \<noteq> - 1 then constraint_triplets (2 * int i + 1) f1 Ds a b (vec3_sub (V ! nat b) (V ! nat a)) else [])"
  using assms
  by (simp add: pushed_def constraint_edge_def mat_row_def vertex_ok_def constraint_side_def)

lemma pushed_rows:
  "t \<in> set (pushed V Ds EF EV' i) \<Longrightarrow> trow t = 2 * int i \<or> trow t = 2 * int i + 1"
  by (auto simp: pushed_def constraint_edge_def constraint_side_def constraint_triplets_def
      split: option.splits prod.splits if_splits)

lemma concat_map_single:
  "i < n \<Longrightarrow> (\<And>k. k < n \<Longrightarrow> k \<noteq> i \<Longrightarrow> g k = []) \<Longrightarrow> concat (map g [0..<n]) = g i"
proof (induction n)
  case 0
  then show ?case by simp
next
  case (Suc n)
  show ?case
  proof (cases "i = n")
    case True
    have "concat (map g [0..<n]) = []"
      using Suc.prems(2) True by (auto simp: concat_eq_Nil_conv)
    with True show ?thesis by simp
  next
    case False
    with Suc.prems(1) have i: "i < n" by simp
    have "g n = []" using Suc.prems(2) [of n] False by simp
    moreover have "concat (map g [0..<n]) = g i"
      using Suc.IH [OF i] Suc.prems(2) by simp
    ultimately show ?thesis by simp
  qed
qed

lemma filter_pushed_other:
  assumes "k \<noteq> i" "j = 0 \<or> j = 1"
  shows "filter (at_position (2 * int i + j) c) (pushed V Ds EF EV' k) = []"
proof -
  have "\<not> at_position (2 * int i + j) c t" if "t \<in> set (pushed V Ds EF EV' k)" for t
    using pushed_rows [OF that] assms by (auto simp: at_position_def)
  then show ?thesis by (simp add: filter_empty_conv)
qed

lemma filter_constraint_list:
  assumes "for_loop n (constraint_edge V Ds EF EV') (0, []) = Some (c', ts)" "i < n" "j = 0 \<or> j = 1"
  shows "filter (at_position (2 * int i + j) c) ts =
         filter (at_position (2 * int i + j) c) (pushed V Ds EF EV' i)"
proof -
  have "filter (at_position (2 * int i + j) c) ts =
        concat (map (\<lambda>k. filter (at_position (2 * int i + j) c) (pushed V Ds EF EV' k)) [0..<n])"
    by (simp add: constraint_loop_list [OF assms(1)] filter_concat comp_def)
  also have "\<dots> = filter (at_position (2 * int i + j) c) (pushed V Ds EF EV' i)"
    by (rule concat_map_single [OF assms(2)]) (simp add: filter_pushed_other assms(3))
  finally show ?thesis .
qed

lemma precompute_C_entries:
  assumes "affine_maps_precompute mq V D' F' EF EV' h adata = Some adata'"
  shows "\<exists>c. for_loop (length EF) (constraint_edge V (int (length D')) EF EV') (0, []) =
           Some (c, entries (C adata'))"
  using assms
  by (auto simp: affine_maps_precompute_def Let_def setFromTriplets_def resize_def
      split: option.splits prod.splits if_splits)

lemma triplets_other_row:
  "r \<noteq> r' \<Longrightarrow> filter (at_position r col) (constraint_triplets r' f Ds a b e) = []"
  by (simp add: constraint_triplets_def at_position_def)

lemma triplets_first_vertex:
  assumes "f < Ds" "0 \<le> a" "0 \<le> b" "a \<noteq> b"
  shows "dsum (map tval (filter (at_position r (3 * Ds + a)) (constraint_triplets r f Ds a b e))) = Fin (- 3)"
proof -
  have "3 * f \<noteq> 3 * Ds + a" "3 * f + 1 \<noteq> 3 * Ds + a" "3 * f + 2 \<noteq> 3 * Ds + a"
    using assms by arith+
  moreover have "b \<noteq> a" using assms by simp
  ultimately show ?thesis
    by (simp add: constraint_triplets_def at_position_def dsum_def)
qed

lemma triplets_second_vertex:
  assumes "f < Ds" "0 \<le> a" "0 \<le> b" "a \<noteq> b"
  shows "dsum (map tval (filter (at_position r (3 * Ds + b)) (constraint_triplets r f Ds a b e))) = Fin 3"
proof -
  have "3 * f \<noteq> 3 * Ds + b" "3 * f + 1 \<noteq> 3 * Ds + b" "3 * f + 2 \<noteq> 3 * Ds + b"
    using assms by arith+
  then show ?thesis
    using assms(4) by (simp add: constraint_triplets_def at_position_def dsum_def)
qed

lemma triplets_face_column:
  assumes "f < Ds" "0 \<le> a" "0 \<le> b" "k \<in> {0, 1, 2}" "normal (vec3_coeff e k)"
  shows "dsum (map tval (filter (at_position r (3 * f + k)) (constraint_triplets r f Ds a b e))) =
         vec3_coeff e k"
proof -
  have "3 * Ds + a \<noteq> 3 * f + k" "3 * Ds + b \<noteq> 3 * f + k"
    using assms by auto
  then have "map tval (filter (at_position r (3 * f + k)) (constraint_triplets r f Ds a b e)) =
             [vec3_coeff e k]"
    using assms(4) by (cases e) (auto simp: constraint_triplets_def at_position_def)
  then show ?thesis
    using assms(5) by (simp add: dsum_def dadd_zero_left)
qed

text \<open>The coefficients of the row of one face side, read off the triplets of its edge.\<close>

lemma side_row:
  assumes "j = 0 \<or> j = 1" "pair_coeff (f0, f1) j \<noteq> - 1"
  shows "filter (at_position (2 * int i + j) col)
           ((if f0 \<noteq> - 1 then constraint_triplets (2 * int i) f0 Ds a b e else []) @
            (if f1 \<noteq> - 1 then constraint_triplets (2 * int i + 1) f1 Ds a b e else [])) =
         filter (at_position (2 * int i + j) col)
           (constraint_triplets (2 * int i + j) (pair_coeff (f0, f1) j) Ds a b e)"
  using assms by (auto simp: pair_coeff_def triplets_other_row)

lemma mesh_ok_triangle: "mesh_ok triangle_V triangle_D triangle_F triangle_EF triangle_EV"
  by (simp add: mesh_ok_def triangle_V_def triangle_D_def triangle_F_def triangle_EF_def
      triangle_EV_def vertex_ok_def face_ok_def)

lemma mesh_ok_square: "mesh_ok square_V square_D square_F square_EF square_EV"
  by (simp add: mesh_ok_def square_V_def square_D_def square_F_def square_EF_def
      square_EV_def vertex_ok_def face_ok_def)

section \<open>Claims about affine_maps_deform.h\<close>

text \<open>
  C1. For the identity deformation the product of the constraint matrix with the unknown
  vector is claimed to be zero in every row. On the single triangle, for the first
  coordinate axis, the unknown vector is the first column of the identity map of the one
  face followed by the first coordinates of the three vertices. The code's matrix gives
  the rows 4, 0, -4, 0, 0, 0: the row of an existing face side is four times the edge
  vector's coordinate, since the vertex triplets are pushed in each of the three passes
  over \<open>k\<close> and with the sign of the face-map term rather than the opposite one.
\<close>

theorem identity_deformation_triangle:
  "Option.bind
     (affine_maps_precompute no_precompute triangle_V triangle_D triangle_F triangle_EF triangle_EV
        [0] adata0)
     (times_C [Fin 1, Fin 0, Fin 0, Fin 0, Fin 1, Fin 0]) =
   Some [Fin 4, Fin 0, Fin (- 4), Fin 0, Fin 0, Fin 0]"
  by code_simp

text \<open>
  C2. After the call the caller's \<open>A\<close> and \<open>q\<close> are claimed to hold the leading \<open>3 * FSize\<close>
  rows and the trailing \<open>VSize\<close> rows of the raw result. With a raw result of four rows, one
  face and one vertex, the function's own copies receive these blocks, and the caller's
  matrices, empty before the call, are empty after it.
\<close>

theorem deform_outputs_lost:
  "affine_maps_deform deform_solver adata1 [] [] [] [] =
     Some ([(Fin 1, Fin 0, Fin 0), (Fin 0, Fin 1, Fin 0), (Fin 0, Fin 0, Fin 1)], [(Fin 5, Fin 6, Fin 7)]) \<and>
   call_affine_maps_deform deform_solver adata1 [] [] ([], []) = Some ([], [])"
  by (simp add: affine_maps_deform_def call_affine_maps_deform_def deform_solver_def adata1_def block_def)

text \<open>
  C3. The constraint matrix is claimed to have one row per existing face side. On the
  square cut along a diagonal that count is 6; the code's matrix has 10 rows, two for
  every edge, since \<open>CRows++\<close> also runs for a missing side.
\<close>

theorem constraint_rows_square:
  "map_option (rows \<circ> C)
     (affine_maps_precompute no_precompute square_V square_D square_F square_EF square_EV
        [0] adata0) = Some 10 \<and>
   rows_per_face_side square_EF = 6"
  by code_simp

text \<open>
  C7. The energy matrix has \<open>3 * F.rows()\<close> identity rows and one bending row for each edge
  whose two face slots are present; without such an edge it has exactly \<open>3 * F.rows()\<close>
  rows. \<open>affine_maps_precompute\<close> returns for every mesh whose indices are in range.
\<close>

theorem energy_matrix_rows:
  "(mesh_ok V D' F' EF EV' \<longrightarrow>
      (\<exists>adata'. affine_maps_precompute mq V D' F' EF EV' h adata = Some adata')) \<and>
   (\<forall>adata'. affine_maps_precompute mq V D' F' EF EV' h adata = Some adata' \<longrightarrow>
      rows (E adata') = 3 * int (length F') + int (length (filter interior EF)) \<and>
      (list_all (\<lambda>e. \<not> interior e) EF \<longrightarrow> rows (E adata') = 3 * int (length F')))"
proof (intro conjI impI allI)
  assume "mesh_ok V D' F' EF EV'"
  then show "\<exists>adata'. affine_maps_precompute mq V D' F' EF EV' h adata = Some adata'"
    by (rule precompute_total)
next
  fix adata'
  assume pre: "affine_maps_precompute mq V D' F' EF EV' h adata = Some adata'"
  show n: "rows (E adata') = 3 * int (length F') + int (length (filter interior EF))"
    by (rule precompute_rows(1) [OF pre])
  assume "list_all (\<lambda>e. \<not> interior e) EF"
  then have "filter interior EF = []"
    by (simp add: filter_empty_conv list_all_iff)
  with n show "rows (E adata') = 3 * int (length F')" by simp
qed

theorem energy_matrix_rows_witness:
  "mesh_ok square_V square_D square_F square_EF square_EV \<and>
   (\<exists>a. affine_maps_precompute no_precompute square_V square_D square_F square_EF square_EV [0] adata0
           = Some a \<and> rows (E a) = 7) \<and>
   mesh_ok triangle_V triangle_D triangle_F triangle_EF triangle_EV \<and>
   list_all (\<lambda>e. \<not> interior e) triangle_EF \<and>
   (\<exists>a. affine_maps_precompute no_precompute triangle_V triangle_D triangle_F triangle_EF triangle_EV
           [0] adata0 = Some a \<and> rows (E a) = 3)"
proof -
  have sq: "length square_F = 2" "length (filter interior square_EF) = 1"
    by (simp_all add: square_F_def square_EF_def interior_def)
  have tr: "length triangle_F = 1" "length (filter interior triangle_EF) = 0"
    "list_all (\<lambda>e. \<not> interior e) triangle_EF"
    by (simp_all add: triangle_F_def triangle_EF_def interior_def)
  show ?thesis
    using energy_matrix_rows [of square_V square_D square_F square_EF square_EV no_precompute "[0]" adata0]
      energy_matrix_rows [of triangle_V triangle_D triangle_F triangle_EF triangle_EV no_precompute "[0]" adata0]
      mesh_ok_square mesh_ok_triangle tr(3)
    by (auto simp: sq tr(1,2))
qed

text \<open>
  C10. In the constraint matrix, the row of an existing face side \<open>j\<close> of edge \<open>i\<close> (row
  \<open>2 * i + j\<close>) has the coefficient -3 in the column of the edge's first end vertex and 3
  in the column of its second, and the three columns of the face's map hold the
  coordinates of the edge vector. The edge has two different end vertices and the face
  is one of the \<open>D.size()\<close> faces.
\<close>

theorem constraint_row_coefficients:
  assumes pre: "affine_maps_precompute mq V D' F' EF EV' h adata = Some adata'"
    and i: "i < length EF" and j: "j = 0 \<or> j = 1"
    and f: "pair_coeff (EF ! i) j \<noteq> - 1" "pair_coeff (EF ! i) j < int (length D')"
    and ab: "fst (EV' ! i) \<noteq> snd (EV' ! i)"
  shows "coeff (C adata') (2 * int i + j) (3 * int (length D') + fst (EV' ! i)) = Fin (- 3) \<and>
         coeff (C adata') (2 * int i + j) (3 * int (length D') + snd (EV' ! i)) = Fin 3 \<and>
         (\<forall>k \<in> {0, 1, 2}.
            coeff (C adata') (2 * int i + j) (3 * pair_coeff (EF ! i) j + k) =
            vec3_coeff (vec3_sub (V ! nat (snd (EV' ! i))) (V ! nat (fst (EV' ! i)))) k)"
proof -
  from precompute_C_entries [OF pre] obtain c where
    loop: "for_loop (length EF) (constraint_edge V (int (length D')) EF EV') (0, []) =
             Some (c, entries (C adata'))" ..
  from for_loop_body_Some [OF loop i] obtain s1 s2 where
    "constraint_edge V (int (length D')) EF EV' i s1 = Some s2" by blast
  from constraint_edge_Some_D [OF this] have iv: "i < length EV'"
    and va: "vertex_ok (length V) (fst (EV' ! i))" and vb: "vertex_ok (length V) (snd (EV' ! i))"
    by simp_all
  obtain a b where ev: "EV' ! i = (a, b)" by (cases "EV' ! i")
  obtain f0 f1 where ef: "EF ! i = (f0, f1)" by (cases "EF ! i")
  define e where "e = vec3_sub (V ! nat b) (V ! nat a)"
  define fj where "fj = pair_coeff (f0, f1) j"
  from va vb ev have a0: "0 \<le> a" and b0: "0 \<le> b" and va': "vertex_ok (length V) a"
    and vb': "vertex_ok (length V) b" by (simp_all add: vertex_ok_def)
  from f ef have fj: "fj \<noteq> - 1" "fj < int (length D')" by (simp_all add: fj_def)
  from ab ev have ab': "a \<noteq> b" by simp
  have sel: "filter (at_position (2 * int i + j) col) (entries (C adata')) =
        filter (at_position (2 * int i + j) col)
          (constraint_triplets (2 * int i + j) fj (int (length D')) a b e)" for col
    unfolding filter_constraint_list [OF loop i j]
      pushed_eq [OF iv i ev ef va' vb', of "int (length D')"] e_def [symmetric] fj_def
    by (rule side_row [OF j]) (use fj in \<open>simp add: fj_def\<close>)
  have 1: "coeff (C adata') (2 * int i + j) (3 * int (length D') + a) = Fin (- 3)"
    unfolding coeff_def sel by (rule triplets_first_vertex [OF fj(2) a0 b0 ab'])
  have 2: "coeff (C adata') (2 * int i + j) (3 * int (length D') + b) = Fin 3"
    unfolding coeff_def sel by (rule triplets_second_vertex [OF fj(2) a0 b0 ab'])
  have 3: "coeff (C adata') (2 * int i + j) (3 * fj + k) = vec3_coeff e k" if "k \<in> {0, 1, 2}" for k
    unfolding coeff_def sel by (rule triplets_face_column [OF fj(2) a0 b0 that]) (simp add: e_def)
  from 1 2 3 show ?thesis
    unfolding ev ef fst_conv snd_conv e_def fj_def by blast
qed

theorem constraint_row_coefficients_witness:
  "\<exists>a. affine_maps_precompute no_precompute triangle_V triangle_D triangle_F triangle_EF triangle_EV
          [0] adata0 = Some a \<and>
       coeff (C a) 2 (3 + 1) = Fin (- 3) \<and> coeff (C a) 2 (3 + 2) = Fin 3 \<and>
       coeff (C a) 2 0 = Fin (- 1) \<and> coeff (C a) 2 1 = Fin 1 \<and> coeff (C a) 2 2 = Fin 0"
proof -
  from precompute_total [OF mesh_ok_triangle] obtain a where
    a: "affine_maps_precompute no_precompute triangle_V triangle_D triangle_F triangle_EF
          triangle_EV [0] adata0 = Some a"
    by blast
  have h: "(1::nat) < length triangle_EF" "(0::int) = 0 \<or> (0::int) = 1"
    "pair_coeff (triangle_EF ! 1) 0 \<noteq> - 1"
    "pair_coeff (triangle_EF ! 1) 0 < int (length triangle_D)"
    "fst (triangle_EV ! 1) \<noteq> snd (triangle_EV ! 1)"
    by (simp_all add: triangle_EF_def triangle_EV_def triangle_D_def pair_coeff_def)
  show ?thesis
    using a constraint_row_coefficients [OF a h]
    by (simp add: triangle_EF_def triangle_EV_def triangle_D_def triangle_V_def pair_coeff_def
        dsub_def)
qed

section \<open>Loops and updates of OffsetMeshTraits\<close>



lemma offset_pushed_eq:
  assumes "i < length EV'" "EV' ! i = (a, b)" "vertex_ok (length V) a" "vertex_ok (length V) b"
  shows "offset_edge V EV' i ts =
           Some (ts @ offset_triplets (int i) a b (int (length V)) (vec3_sub (V ! nat b) (V ! nat a)))"
    and "offset_pushed V EV' i =
           offset_triplets (int i) a b (int (length V)) (vec3_sub (V ! nat b) (V ! nat a))"
  using assms
  by (simp_all add: offset_pushed_def offset_edge_def mat_row_def vertex_ok_def)

lemma offset_triplets_inside:
  assumes "i < m" "vertex_ok n a" "vertex_ok n b"
  shows "list_all (inside (3 * int m) (3 * int n + int m)) (offset_triplets (int i) a b (int n) e)"
  using assms
  by (auto simp: offset_triplets_def inside_def vertex_ok_def)

lemma offset_loop_total:
  assumes ok: "edges_ok V EV'"
  shows "k \<le> length EV' \<Longrightarrow>
     \<exists>ts. for_loop k (offset_edge V EV') [] = Some ts \<and>
          list_all (inside (3 * int (length EV')) (3 * int (length V) + int (length EV'))) ts"
proof (induction k)
  case 0
  then show ?case by simp
next
  case (Suc k)
  then obtain ts where
    p: "for_loop k (offset_edge V EV') [] = Some ts"
    and w: "list_all (inside (3 * int (length EV')) (3 * int (length V) + int (length EV'))) ts"
    by auto
  from Suc.prems have k: "k < length EV'" by simp
  obtain a b where ev: "EV' ! k = (a, b)" by (cases "EV' ! k")
  from ok k ev have va: "vertex_ok (length V) a" and vb: "vertex_ok (length V) b"
    by (auto simp: edges_ok_def list_all_length)
  from offset_pushed_eq(1) [OF k ev va vb] offset_triplets_inside [OF k va vb] p w
  show ?case by simp
qed

lemma init_Some_D:
  assumes "init V D' F' EV' ot d' s = Some s'"
  shows "VOrig s' = V" "EV s' = EV'" "d s' = d'" "oType s' = ot"
    "xSize s' = 3 * int (length V) + int (length EV')"
    "length (CVec s') = 3 * length EV'"
    "rows (offsetConstMat s') = 3 * int (length EV')"
    "cols (offsetConstMat s') = 3 * int (length V) + int (length EV')"
    "for_loop (length EV') (offset_edge V EV') [] = Some (entries (offsetConstMat s'))"
    "ot = VERTEX_OFFSET \<Longrightarrow> length (JEVals s') = 3 * length V"
    "ot \<noteq> VERTEX_OFFSET \<Longrightarrow>
       EVec s' = EVec s \<and> JERows s' = JERows s \<and> JECols s' = JECols s \<and> JEVals s' = JEVals s"
  using assms
  by (auto simp: init_def Let_def setFromTriplets_def resize_def vec_resize_def
      split: option.splits if_splits)

lemma init_total:
  assumes ok: "edges_ok V EV'"
  shows "\<exists>s'. init V D' F' EV' ot d' s = Some s'"
proof -
  from offset_loop_total [OF ok order_refl] obtain ts where
    p: "for_loop (length EV') (offset_edge V EV') [] = Some ts"
    and w: "list_all (inside (3 * int (length EV')) (3 * int (length V) + int (length EV'))) ts"
    by auto
  have "list_all (in_range (resize (3 * int (length EV')) (3 * int (length V) + int (length EV')) M)) ts" for M
    using w by (simp add: list_all_iff in_range_def inside_def resize_def)
  with p show ?thesis
    by (simp add: init_def Let_def setFromTriplets_def)
qed

lemma length_flatten3 [simp]: "length (flatten3 vs) = 3 * length vs"
  by (induction vs) (auto simp: flatten3_def)

lemma flatten3_snoc: "flatten3 (vs @ [v]) = flatten3 vs @ coords v"
  by (simp add: flatten3_def)

lemma flatten3_nth:
  "i < length vs \<Longrightarrow> j < 3 \<Longrightarrow> flatten3 vs ! (3 * i + j) = vec3_coeff (vs ! i) (int j)"
proof (induction vs arbitrary: i)
  case Nil
  then show ?case by simp
next
  case (Cons v vs)
  obtain a b c where v: "v = (a, b, c)" by (cases v)
  show ?case
  proof (cases i)
    case 0
    with Cons.prems v show ?thesis
      by (cases j rule: nat.exhaust; simp add: flatten3_def nth_Cons split: nat.splits)
  next
    case (Suc k)
    with Cons.prems have k: "k < length vs" by simp
    have "flatten3 (v # vs) ! (3 * i + j) = flatten3 vs ! (3 * k + j)"
      using Suc v by (simp add: flatten3_def)
    with Cons.IH [OF k Cons.prems(2)] Suc show ?thesis by simp
  qed
qed

lemma set_segment3_append:
  assumes "length xs = 3 * i" "3 \<le> length ys"
  shows "set_segment3 (xs @ ys) i v = xs @ coords v @ drop 3 ys"
proof -
  obtain a b c where v: "v = (a, b, c)" by (cases v)
  from assms(2) obtain y0 y1 y2 rest where ys: "ys = y0 # y1 # y2 # rest"
    by (cases ys; simp; rename_tac ys1; case_tac ys1; simp; rename_tac ys2; case_tac ys2; simp)
  show ?thesis
    using assms(1) by (simp add: v ys list_update_append)
qed

lemma fold_set_segment3:
  assumes "3 * length V \<le> length x"
  shows "k \<le> length V \<Longrightarrow>
     fold (\<lambda>i x. set_segment3 x i (V ! i)) [0..<k] x = flatten3 (take k V) @ drop (3 * k) x"
proof (induction k)
  case 0
  then show ?case by (simp add: flatten3_def)
next
  case (Suc k)
  then have k: "k < length V" by simp
  have len: "3 \<le> length (drop (3 * k) x)" using assms k by simp
  have "fold (\<lambda>i x. set_segment3 x i (V ! i)) [0..<Suc k] x =
        set_segment3 (flatten3 (take k V) @ drop (3 * k) x) k (V ! k)"
    using Suc by simp
  also have "\<dots> = flatten3 (take k V) @ coords (V ! k) @ drop 3 (drop (3 * k) x)"
    using k by (intro set_segment3_append len) simp
  also have "\<dots> = flatten3 (take (Suc k) V) @ drop (3 * Suc k) x"
    using k by (simp add: take_Suc_conv_app_nth flatten3_snoc add.commute)
  finally show ?case .
qed

lemma initial_solution_eq:
  "initial_solution s x0 = flatten3 (VOrig s) @ replicate (length (EV s)) (Fin 0)"
proof -
  define x1 where "x1 = conservativeResize (3 * length (VOrig s) + length (EV s)) x0"
  have "length x1 = 3 * length (VOrig s) + length (EV s)"
    by (simp add: x1_def conservativeResize_def)
  then have "3 * length (VOrig s) \<le> length x1" by simp
  from fold_set_segment3 [OF this order_refl] show ?thesis
    by (simp add: initial_solution_def Let_def x1_def [symmetric])
qed

lemma current_vertices_loop:
  assumes "length cv = n"
  shows "k \<le> n \<Longrightarrow> 3 * k \<le> length x \<Longrightarrow>
     for_loop k (\<lambda>i currV. case segment3 x i of None \<Rightarrow> None | Some r \<Rightarrow> Some (currV[i := r])) cv =
       Some (map (read3 x) [0..<k] @ drop k cv)"
proof (induction k)
  case 0
  then show ?case by simp
next
  case (Suc k)
  then have k: "k < n" and x: "3 * k + 3 \<le> length x" by simp_all
  have seg: "segment3 x k = Some (read3 x k)"
    using x by (simp add: segment3_def read3_def)
  have d: "drop k cv = cv ! k # drop (Suc k) cv"
    using k assms by (simp add: Cons_nth_drop_Suc)
  have "(map (read3 x) [0..<k] @ drop k cv)[k := read3 x k] =
        map (read3 x) [0..<Suc k] @ drop (Suc k) cv"
    unfolding d by (simp add: list_update_append)
  with Suc seg show ?case by simp
qed

lemma current_vertices_eq:
  "3 * n \<le> length x \<Longrightarrow> current_vertices n x = Some (map (read3 x) [0..<n])"
  unfolding current_vertices_def
  using current_vertices_loop [of "replicate n (uninitialized, uninitialized, uninitialized)" n n x]
  by simp

lemma read3_flatten3:
  "i < length V \<Longrightarrow> read3 (flatten3 V @ ys) i = V ! i"
proof -
  assume i: "i < length V"
  obtain a b c where v: "V ! i = (a, b, c)" by (cases "V ! i")
  have "(flatten3 V @ ys) ! (3 * i + j) = vec3_coeff (V ! i) (int j)" if "j < 3" for j
    using flatten3_nth [OF i that] i that by (simp add: nth_append)
  from this [of 0] this [of 1] this [of 2] show ?thesis
    by (simp add: read3_def v)
qed

lemma residual_at_origin:
  assumes "finite3 v"
  shows "dsub (squaredNorm (vec3_sub v v)) (dmul (Fin 1) (Fin 1)) = Fin (- 1)"
proof -
  obtain a b c where v: "v = (a, b, c)" by (cases v)
  from assms v obtain a' b' c' where "a = Fin a'" "b = Fin b'" "c = Fin c'"
    by (cases a; cases b; cases c; simp add: finite3_def)
  with v show ?thesis by (simp add: dsub_def)
qed

lemma nan_report_no_nan:
  "list_all (\<lambda>v. \<not> isnan v) vs \<Longrightarrow> nan_report name vs = []"
  by (auto simp: nan_report_def list_all_length)

lemma edges_ok_cube: "edges_ok cube_V cube_EV"
  by (simp add: edges_ok_def cube_V_def cube_EV_def vertex_ok_def)

lemma edges_ok_triangle: "edges_ok triangle_V triangle_EV"
  by (simp add: edges_ok_def triangle_V_def triangle_EV_def vertex_ok_def)

lemma finite_cube: "list_all finite3 cube_V"
  by (simp add: cube_V_def finite3_def)

lemma update_energy_vertex:
  assumes "oType s = VERTEX_OFFSET" "3 * length (VOrig s) \<le> length x"
  shows "update_energy x s =
     Some (s\<lparr>EVec := map (\<lambda>i. dsub (squaredNorm (vec3_sub (VOrig s ! i) (read3 x i)))
                                   (dmul (d s) (d s))) [0..<length (VOrig s)]\<rparr>,
           nan_report ''EVec'' (map (\<lambda>i. dsub (squaredNorm (vec3_sub (VOrig s ! i) (read3 x i)))
                                   (dmul (d s) (d s))) [0..<length (VOrig s)]))"
proof -
  have "map (\<lambda>(v, v'). dsub (squaredNorm (vec3_sub v v')) (dmul (d s) (d s)))
          (zip (VOrig s) (map (read3 x) [0..<length (VOrig s)])) =
        map (\<lambda>i. dsub (squaredNorm (vec3_sub (VOrig s ! i) (read3 x i))) (dmul (d s) (d s)))
          [0..<length (VOrig s)]"
    by (rule nth_equalityI) simp_all
  then show ?thesis
    using assms by (simp add: update_energy_def current_vertices_eq Let_def)
qed

lemma update_energy_total:
  assumes "3 * length (VOrig s) \<le> length x"
  shows "\<exists>s'. update_energy x s = Some (s', nan_report ''EVec'' (EVec s'))"
  using assms by (simp add: update_energy_def current_vertices_eq Let_def)

lemma update_energy_out:
  assumes "update_energy x s = Some (s', out)"
  shows "out = nan_report ''EVec'' (EVec s')"
  using assms by (auto simp: update_energy_def Let_def split: option.splits)

lemma update_jacobian_out:
  assumes "update_jacobian x s = Some (s', out)"
  shows "out = nan_report ''JEVals'' (JEVals s')"
  using assms by (auto simp: update_jacobian_def Let_def split: option.splits if_splits)

lemma nan_report_line:
  assumes "i < length vs" "isnan (vs ! i)"
  shows "nan_line name i \<in> set (nan_report name vs)"
proof -
  have "nan_line name i \<in> set (if isnan (vs ! i) then [nan_line name i] else [])"
    using assms(2) by simp
  moreover have "i \<in> set [0..<length vs]" using assms(1) by simp
  ultimately show ?thesis
    unfolding nan_report_def set_concat set_map by blast
qed

lemma jacobian_inner:
  assumes "3 * i + 3 \<le> length v"
  shows "for_loop 3 (\<lambda>j. set_coeff (3 * i + j) (f j)) v = Some (set_segment3 v i (f 0, f 1, f 2))"
  using assms by (simp add: numeral_3_eq_3 numeral_2_eq_2 set_coeff_def)

lemma jacobian_loop:
  assumes "3 * length V \<le> length v"
  shows "k \<le> length V \<Longrightarrow>
     for_loop k (\<lambda>i. for_loop 3 (\<lambda>j. set_coeff (3 * i + j)
                                          (dmul (Fin 2) (vec3_coeff (V ! i) (int j))))) v =
       Some (flatten3 (map jacobian_row (take k V)) @ drop (3 * k) v)"
proof (induction k)
  case 0
  then show ?case by (simp add: flatten3_def)
next
  case (Suc k)
  then have k: "k < length V" by simp
  let ?w = "flatten3 (map jacobian_row (take k V)) @ drop (3 * k) v"
  have len: "3 \<le> length (drop (3 * k) v)" using assms k by simp
  have lw: "3 * k + 3 \<le> length ?w" using assms k by simp
  have "set_segment3 ?w k (jacobian_row (V ! k)) =
        flatten3 (map jacobian_row (take k V)) @ coords (jacobian_row (V ! k)) @ drop 3 (drop (3 * k) v)"
    using k by (intro set_segment3_append len) simp
  also have "\<dots> = flatten3 (map jacobian_row (take (Suc k) V)) @ drop (3 * Suc k) v"
    using k by (simp add: take_Suc_conv_app_nth flatten3_snoc add.commute)
  finally have step: "set_segment3 ?w k (jacobian_row (V ! k)) =
      flatten3 (map jacobian_row (take (Suc k) V)) @ drop (3 * Suc k) v" .
  have "for_loop 3 (\<lambda>j. set_coeff (3 * k + j) (dmul (Fin 2) (vec3_coeff (V ! k) (int j)))) ?w =
        Some (set_segment3 ?w k (jacobian_row (V ! k)))"
    unfolding jacobian_inner [OF lw] by (simp add: jacobian_row_def)
  with Suc step show ?case by simp
qed

lemma update_jacobian_vertex:
  assumes "oType s = VERTEX_OFFSET" "length (JEVals s) = 3 * length (VOrig s)"
    "3 * length (VOrig s) \<le> length x"
  shows "update_jacobian x s =
     Some (s\<lparr>JEVals := flatten3 (map jacobian_row (VOrig s))\<rparr>,
           nan_report ''JEVals'' (flatten3 (map jacobian_row (VOrig s))))"
proof -
  have "3 * length (VOrig s) \<le> length (JEVals s)" using assms(2) by simp
  from jacobian_loop [OF this order_refl] assms show ?thesis
    by (simp add: update_jacobian_def current_vertices_eq)
qed

lemma update_jacobian_other:
  assumes "oType s \<noteq> VERTEX_OFFSET" "3 * length (VOrig s) \<le> length x"
  shows "update_jacobian x s = Some (s, nan_report ''JEVals'' (JEVals s))"
  using assms by (simp add: update_jacobian_def current_vertices_eq)

lemma jacobian_row_nth:
  assumes "i < length V" "j < 3"
  shows "flatten3 (map jacobian_row V) ! (3 * i + j) = dmul (Fin 2) (vec3_coeff (V ! i) (int j))"
proof -
  have "flatten3 (map jacobian_row V) ! (3 * i + j) = vec3_coeff (jacobian_row (V ! i)) (int j)"
    using flatten3_nth [of i "map jacobian_row V" j] assms by simp
  also have "\<dots> = dmul (Fin 2) (vec3_coeff (V ! i) (int j))"
  proof -
    from assms(2) have "j = 0 \<or> j = 1 \<or> j = 2" by arith
    then show ?thesis
      by (cases "V ! i") (auto simp: jacobian_row_def)
  qed
  finally show ?thesis .
qed








subsection \<open>The rows of the constant constraint matrix\<close>

















text \<open>
  Where the difference of two coordinates overflows, the edge vector is infinite, its
  product with the zero scale is NaN, and so is the residual.
\<close>

lemma edge_overflow_residual:
  "list_all (edge_vector_finite overflow_V) [(0, 1)] = False \<and>
   vec3_sub (overflow_V ! 1) (overflow_V ! 0) = (PInf, Fin 0, Fin 0) \<and>
   map_option CVec
     (Option.bind (init overflow_V [] [] [(0, 1)] VERTEX_OFFSET (Fin 1) traits0)
        constraints_at_initial) = Some [NaN, Fin 0, Fin 0]"
  by code_simp

section \<open>Claims about OffsetMeshTraits.h\<close>

text \<open>
  C4. With \<open>EDGE_OFFSET\<close> or \<open>FACE_OFFSET\<close>, \<open>init\<close> is claimed to fail with an error. It
  has no failing path for the offset type: for every mesh whose end vertices are in range
  it returns, with the offset type stored and the constraint matrix built, and leaves
  \<open>EVec\<close>, \<open>JERows\<close>, \<open>JECols\<close> and \<open>JEVals\<close> as they were before the call.
\<close>

theorem unsupported_offset_init:
  assumes "ot = EDGE_OFFSET \<or> ot = FACE_OFFSET" "edges_ok V EV'"
  shows "\<exists>s'. init V D' F' EV' ot d' s = Some s' \<and> oType s' = ot \<and>
           rows (offsetConstMat s') = 3 * int (length EV') \<and>
           cols (offsetConstMat s') = 3 * int (length V) + int (length EV') \<and>
           EVec s' = EVec s \<and> JERows s' = JERows s \<and> JECols s' = JECols s \<and>
           JEVals s' = JEVals s"
proof -
  from init_total [OF assms(2)] obtain s' where s': "init V D' F' EV' ot d' s = Some s'"
    by blast
  from assms(1) have "ot \<noteq> VERTEX_OFFSET" by auto
  from init_Some_D(11) [OF s' this] init_Some_D(4,7,8) [OF s'] s' show ?thesis by simp
qed

theorem unsupported_offset_init_witness:
  "(EDGE_OFFSET = EDGE_OFFSET \<or> EDGE_OFFSET = FACE_OFFSET) \<and> edges_ok triangle_V triangle_EV \<and>
   (\<exists>s'. init triangle_V triangle_D triangle_F triangle_EV EDGE_OFFSET (Fin 1) traits0 = Some s' \<and>
      oType s' = EDGE_OFFSET \<and> rows (offsetConstMat s') = 9 \<and> cols (offsetConstMat s') = 12 \<and>
      EVec s' = [] \<and> JERows s' = [] \<and> JECols s' = [] \<and> JEVals s' = [])"
proof -
  have h: "EDGE_OFFSET = EDGE_OFFSET \<or> EDGE_OFFSET = FACE_OFFSET" by simp
  have l: "length triangle_EV = 3" "length triangle_V = 3"
    by (simp_all add: triangle_EV_def triangle_V_def)
  have t: "EVec traits0 = []" "JERows traits0 = []" "JECols traits0 = []" "JEVals traits0 = []"
    by (simp_all add: traits0_def OffsetMeshTraits_new_def)
  from unsupported_offset_init [OF h edges_ok_triangle, of triangle_D triangle_F "Fin 1" traits0]
  obtain s' where
    "init triangle_V triangle_D triangle_F triangle_EV EDGE_OFFSET (Fin 1) traits0 = Some s'"
    "oType s' = EDGE_OFFSET" "rows (offsetConstMat s') = 3 * int (length triangle_EV)"
    "cols (offsetConstMat s') = 3 * int (length triangle_V) + int (length triangle_EV)"
    "EVec s' = EVec traits0" "JERows s' = JERows traits0" "JECols s' = JECols traits0"
    "JEVals s' = JEVals traits0"
    by blast
  with h edges_ok_triangle l t show ?thesis by auto
qed

text \<open>
  On the triangle and a new object, \<open>init\<close> returns for both offset types, and the
  energy structures are empty afterwards.
\<close>

theorem unsupported_offset_init_returns:
  "map_option EVec
     (init triangle_V triangle_D triangle_F triangle_EV EDGE_OFFSET (Fin 1) traits0) = Some [] \<and>
   map_option JEVals
     (init triangle_V triangle_D triangle_F triangle_EV EDGE_OFFSET (Fin 1) traits0) = Some [] \<and>
   map_option JERows
     (init triangle_V triangle_D triangle_F triangle_EV FACE_OFFSET (Fin 1) traits0) = Some [] \<and>
   map_option JECols
     (init triangle_V triangle_D triangle_F triangle_EV FACE_OFFSET (Fin 1) traits0) = Some []"
  by code_simp

text \<open>
  C5. A non-finite residual or Jacobian value is claimed to reach the caller as a failed
  iteration. Both updates return whenever the iterate holds the coordinates of every
  vertex (and \<open>JEVals\<close> has its size), whatever the values are; a coefficient that is NaN
  leaves one line on standard output, and without a NaN nothing is written, so that an
  infinite coefficient leaves no trace.
\<close>

theorem non_finite_only_logged:
  "(3 * length (VOrig s) \<le> length x \<longrightarrow> (\<exists>s' out. update_energy x s = Some (s', out))) \<and>
   (3 * length (VOrig s) \<le> length x \<and> length (JEVals s) = 3 * length (VOrig s) \<longrightarrow>
      (\<exists>s' out. update_jacobian x s = Some (s', out))) \<and>
   (\<forall>s' out. update_energy x s = Some (s', out) \<longrightarrow>
      (\<forall>i < length (EVec s'). isnan (EVec s' ! i) \<longrightarrow> nan_line ''EVec'' i \<in> set out) \<and>
      (list_all (\<lambda>v. \<not> isnan v) (EVec s') \<longrightarrow> out = [])) \<and>
   (\<forall>s' out. update_jacobian x s = Some (s', out) \<longrightarrow>
      (\<forall>i < length (JEVals s'). isnan (JEVals s' ! i) \<longrightarrow> nan_line ''JEVals'' i \<in> set out) \<and>
      (list_all (\<lambda>v. \<not> isnan v) (JEVals s') \<longrightarrow> out = []))"
proof (intro conjI impI allI)
  assume "3 * length (VOrig s) \<le> length x"
  from update_energy_total [OF this] show "\<exists>s' out. update_energy x s = Some (s', out)" by blast
next
  assume a: "3 * length (VOrig s) \<le> length x \<and> length (JEVals s) = 3 * length (VOrig s)"
  show "\<exists>s' out. update_jacobian x s = Some (s', out)"
  proof (cases "oType s = VERTEX_OFFSET")
    case True
    with a show ?thesis by (simp add: update_jacobian_vertex)
  next
    case False
    with a show ?thesis by (simp add: update_jacobian_other)
  qed
next
  fix s' out i
  assume "update_energy x s = Some (s', out)" "i < length (EVec s')" "isnan (EVec s' ! i)"
  then show "nan_line ''EVec'' i \<in> set out"
    using nan_report_line [of i "EVec s'" "''EVec''"] update_energy_out [of x s s' out]
    by blast
next
  fix s' out
  assume "update_energy x s = Some (s', out)" "list_all (\<lambda>v. \<not> isnan v) (EVec s')"
  then show "out = []"
    using update_energy_out [of x s s' out] nan_report_no_nan [of "EVec s'" "''EVec''"] by blast
next
  fix s' out i
  assume "update_jacobian x s = Some (s', out)" "i < length (JEVals s')" "isnan (JEVals s' ! i)"
  then show "nan_line ''JEVals'' i \<in> set out"
    using nan_report_line [of i "JEVals s'" "''JEVals''"] update_jacobian_out [of x s s' out]
    by blast
next
  fix s' out
  assume "update_jacobian x s = Some (s', out)" "list_all (\<lambda>v. \<not> isnan v) (JEVals s')"
  then show "out = []"
    using update_jacobian_out [of x s s' out] nan_report_no_nan [of "JEVals s'" "''JEVals''"]
    by blast
qed

theorem non_finite_only_logged_witness:
  "\<exists>s. init triangle_V triangle_D triangle_F triangle_EV VERTEX_OFFSET (Fin 1) traits0 = Some s \<and>
       3 * length (VOrig s) \<le> length nan_iterate \<and>
       length (JEVals s) = 3 * length (VOrig s) \<and>
       (\<exists>s' out. update_energy nan_iterate s = Some (s', out) \<and>
          0 < length (EVec s') \<and> isnan (EVec s' ! 0) \<and> nan_line ''EVec'' 0 \<in> set out) \<and>
       (\<exists>s' out. update_jacobian nan_iterate s = Some (s', out) \<and>
          list_all (\<lambda>v. \<not> isnan v) (JEVals s') \<and> out = [])"
proof -
  from init_total [OF edges_ok_triangle] obtain s where
    s: "init triangle_V triangle_D triangle_F triangle_EV VERTEX_OFFSET (Fin 1) traits0 = Some s"
    by blast
  note f = init_Some_D(1-4) [OF s] init_Some_D(10) [OF s refl]
  have l: "length triangle_V = 3" "length nan_iterate = 12"
    by (simp_all add: triangle_V_def nan_iterate_def)
  have h: "3 * length (VOrig s) \<le> length nan_iterate"
    "length (JEVals s) = 3 * length (VOrig s)"
    using f l by simp_all
  note t = non_finite_only_logged [of s nan_iterate]
  from t h obtain s1 out1 where e: "update_energy nan_iterate s = Some (s1, out1)" by blast
  from t h obtain s2 out2 where j: "update_jacobian nan_iterate s = Some (s2, out2)" by blast
  have e0: "0 < length (EVec s1)" "isnan (EVec s1 ! 0)"
    using e update_energy_vertex [OF f(4) h(1)] f l
    by (auto simp: triangle_V_def nan_iterate_def read3_def dsub_def)
  with t e have e1: "nan_line ''EVec'' 0 \<in> set out1" by blast
  have "JEVals s2 = flatten3 (map jacobian_row triangle_V)"
    using j update_jacobian_vertex [OF f(4) h(2) h(1)] f by auto
  then have j0: "list_all (\<lambda>v. \<not> isnan v) (JEVals s2)"
    by (simp add: triangle_V_def flatten3_def jacobian_row_def)
  with t j have "out2 = []" by blast
  with s h e e0 e1 j j0 show ?thesis by blast
qed

text \<open>
  On the triangle with offset 1 and an iterate whose first coordinate is NaN and whose
  fourth is infinite, \<open>update_energy\<close> returns the residuals NaN, infinity and -1, and the
  only output is the line for the NaN.
\<close>

theorem nan_residual_returns:
  "map_option (EVec \<circ> fst)
     (Option.bind (init triangle_V triangle_D triangle_F triangle_EV VERTEX_OFFSET (Fin 1) traits0)
        (update_energy nan_iterate)) = Some [NaN, PInf, Fin (- 1)] \<and>
   map_option snd
     (Option.bind (init triangle_V triangle_D triangle_F triangle_EV VERTEX_OFFSET (Fin 1) traits0)
        (update_energy nan_iterate)) = Some [''nan in EVec(0)'']"
  by code_simp

text \<open>
  C6. For the vertex offset, after \<open>update_jacobian\<close> the value at \<open>3 * i + j\<close> is twice
  coordinate \<open>j\<close> of the original vertex \<open>i\<close>, so two iterates give the same values.
\<close>

theorem vertex_offset_jacobian:
  assumes "oType s = VERTEX_OFFSET" "length (JEVals s) = 3 * length (VOrig s)"
    "3 * length (VOrig s) \<le> length x1" "3 * length (VOrig s) \<le> length x2"
  shows "\<exists>s1 out1 s2 out2.
     update_jacobian x1 s = Some (s1, out1) \<and> update_jacobian x2 s = Some (s2, out2) \<and>
     JEVals s1 = JEVals s2 \<and>
     (\<forall>i < length (VOrig s). \<forall>j < 3.
        JEVals s1 ! (3 * i + j) = dmul (Fin 2) (vec3_coeff (VOrig s ! i) (int j)))"
  using assms by (simp add: update_jacobian_vertex jacobian_row_nth)

theorem vertex_offset_jacobian_witness:
  "\<exists>s. init cube_V cube_D cube_F cube_EV VERTEX_OFFSET (Fin 1) traits0 = Some s \<and>
       oType s = VERTEX_OFFSET \<and> length (JEVals s) = 3 * length (VOrig s) \<and>
       3 * length (VOrig s) \<le> length (initial_solution s []) \<and>
       3 * length (VOrig s) \<le> length (replicate 36 (Fin 5)) \<and>
       (\<exists>s1 out1 s2 out2.
          update_jacobian (initial_solution s []) s = Some (s1, out1) \<and>
          update_jacobian (replicate 36 (Fin 5)) s = Some (s2, out2) \<and>
          JEVals s1 = JEVals s2 \<and>
          JEVals s1 ! (3 * 6 + 1) = Fin 2)"
proof -
  from init_total [OF edges_ok_cube] obtain s where
    s: "init cube_V cube_D cube_F cube_EV VERTEX_OFFSET (Fin 1) traits0 = Some s" by blast
  note f = init_Some_D(1-4) [OF s] init_Some_D(10) [OF s refl]
  have l: "length cube_V = 8" by (simp add: cube_V_def)
  have h: "oType s = VERTEX_OFFSET" "length (JEVals s) = 3 * length (VOrig s)"
    "3 * length (VOrig s) \<le> length (initial_solution s [])"
    "3 * length (VOrig s) \<le> length (replicate 36 (Fin 5))"
    using f l by (simp_all add: initial_solution_eq)
  have v: "dmul (Fin 2) (vec3_coeff (cube_V ! 6) (int 1)) = Fin 2"
    by (simp add: cube_V_def)
  from vertex_offset_jacobian [OF h] obtain s1 out1 s2 out2 where
    r: "update_jacobian (initial_solution s []) s = Some (s1, out1)"
      "update_jacobian (replicate 36 (Fin 5)) s = Some (s2, out2)"
      "JEVals s1 = JEVals s2"
      "\<forall>i < length (VOrig s). \<forall>j < 3.
        JEVals s1 ! (3 * i + j) = dmul (Fin 2) (vec3_coeff (VOrig s ! i) (int j))"
    by blast
  have "(6::nat) < length (VOrig s)" "(1::nat) < 3" using f l by simp_all
  with r(4) have "JEVals s1 ! (3 * 6 + 1) = dmul (Fin 2) (vec3_coeff (VOrig s ! 6) (int 1))"
    by blast
  with v f(1) have "JEVals s1 ! (3 * 6 + 1) = Fin 2" by simp
  with s h r(1,2,3) show ?thesis by blast
qed

text \<open>
  C8. For the vertex offset, \<open>update_energy\<close> sets the residual of vertex \<open>i\<close> to the
  squared norm of the difference between the original position and the position block of
  the iterate, minus \<open>d * d\<close>; on the initial solution of a mesh with finite coordinates
  and \<open>d = 1\<close> every residual is -1.
\<close>

theorem vertex_offset_residual:
  "(oType s = VERTEX_OFFSET \<and> 3 * length (VOrig s) \<le> length x \<longrightarrow>
      (\<exists>s' out. update_energy x s = Some (s', out) \<and> length (EVec s') = length (VOrig s) \<and>
         (\<forall>i < length (VOrig s).
            EVec s' ! i = dsub (squaredNorm (vec3_sub (VOrig s ! i) (read3 x i)))
                               (dmul (d s) (d s))))) \<and>
   (oType s = VERTEX_OFFSET \<and> d s = Fin 1 \<and> list_all finite3 (VOrig s) \<longrightarrow>
      (\<exists>s' out. update_energy (initial_solution s x0) s = Some (s', out) \<and>
         EVec s' = replicate (length (VOrig s)) (Fin (- 1))))"
proof (intro conjI impI)
  assume "oType s = VERTEX_OFFSET \<and> 3 * length (VOrig s) \<le> length x"
  then show "\<exists>s' out. update_energy x s = Some (s', out) \<and> length (EVec s') = length (VOrig s) \<and>
         (\<forall>i < length (VOrig s).
            EVec s' ! i = dsub (squaredNorm (vec3_sub (VOrig s ! i) (read3 x i)))
                               (dmul (d s) (d s)))"
    by (simp add: update_energy_vertex)
next
  assume a: "oType s = VERTEX_OFFSET \<and> d s = Fin 1 \<and> list_all finite3 (VOrig s)"
  let ?x = "initial_solution s x0"
  let ?r = "map (\<lambda>i. dsub (squaredNorm (vec3_sub (VOrig s ! i) (read3 ?x i))) (dmul (d s) (d s)))
          [0..<length (VOrig s)]"
  have len: "3 * length (VOrig s) \<le> length ?x" by (simp add: initial_solution_eq)
  have "?r = replicate (length (VOrig s)) (Fin (- 1))"
  proof (rule nth_equalityI)
    show "length ?r = length (replicate (length (VOrig s)) (Fin (- 1)))" by simp
  next
    fix i
    assume "i < length ?r"
    then have i: "i < length (VOrig s)" by simp
    then have "finite3 (VOrig s ! i)" using a by (simp add: list_all_length)
    from residual_at_origin [OF this] i a
    show "?r ! i = replicate (length (VOrig s)) (Fin (- 1)) ! i"
      by (simp add: initial_solution_eq read3_flatten3)
  qed
  with a len show "\<exists>s' out. update_energy ?x s = Some (s', out) \<and>
         EVec s' = replicate (length (VOrig s)) (Fin (- 1))"
    by (simp add: update_energy_vertex)
qed

theorem vertex_offset_residual_witness:
  "\<exists>s. init cube_V cube_D cube_F cube_EV VERTEX_OFFSET (Fin 1) traits0 = Some s \<and>
       oType s = VERTEX_OFFSET \<and> d s = Fin 1 \<and> list_all finite3 (VOrig s) \<and>
       3 * length (VOrig s) \<le> length (initial_solution s []) \<and>
       (\<exists>s' out. update_energy (initial_solution s []) s = Some (s', out) \<and>
          EVec s' = replicate 8 (Fin (- 1)))"
proof -
  from init_total [OF edges_ok_cube] obtain s where
    s: "init cube_V cube_D cube_F cube_EV VERTEX_OFFSET (Fin 1) traits0 = Some s" by blast
  note f = init_Some_D(1-4) [OF s]
  have l: "length cube_V = 8" by (simp add: cube_V_def)
  have h: "oType s = VERTEX_OFFSET \<and> d s = Fin 1 \<and> list_all finite3 (VOrig s)"
    using f finite_cube by simp
  have n: "3 * length (VOrig s) \<le> length (initial_solution s [])"
    by (simp add: initial_solution_eq)
  from vertex_offset_residual [of s "initial_solution s []" "[]"] h
  obtain s' out where "update_energy (initial_solution s []) s = Some (s', out)"
    "EVec s' = replicate (length (VOrig s)) (Fin (- 1))" by blast
  with s h n f(1) l show ?thesis by auto
qed



end
